theory Spec2Isabelle
  imports Main "HOL-Library.AList"
begin

section \<open>Values: the parsed YAML/JSON documents\<close>

text \<open>
  The script works on the Python objects that \<^verbatim>\<open>yaml.load_all\<close> returns and hands
  them to \<^verbatim>\<open>json.dumps\<close>. A document is a tree of dicts, lists and scalars. Dicts keep
  their insertion order, so a dict is an association list; a Python dict never holds
  a key twice, which is the invariant \<open>wf_json\<close>. Keys are strings (JSON object keys).
  Floating point scalars are left out of the model, and strings are ASCII. A document
  is a tree: a YAML alias that makes two places share one object is not modelled.
\<close>

datatype json =
    JNull
  | JBool bool
  | JInt int
  | JStr string
  | JList "json list"
  | JDict "(string \<times> json) list"

fun wf_json :: "json \<Rightarrow> bool" where
  "wf_json (JDict items) = (distinct (map fst items) \<and> list_all (\<lambda>(k, v). wf_json v) items)"
| "wf_json (JList xs) = list_all wf_json xs"
| "wf_json _ = True"

text \<open>
  The exceptions the script can end with. \<open>Unmodelled\<close> is not a Python exception: it
  marks an input on which a library call (\<^verbatim>\<open>str.format\<close> with a conversion, a format
  specification or an attribute access; \<^verbatim>\<open>str()\<close> of a list or dict) leaves the
  fragment of the library that this theory describes.
\<close>

datatype error =
    AttributeError
  | KeyError
  | TypeError
  | NameError
  | ValueError
  | IndexError
  | OSError
  | YAMLError
  | Unmodelled

definition then_do :: "error + 'a \<Rightarrow> ('a \<Rightarrow> error + 'b) \<Rightarrow> error + 'b" where
  "then_do m f = (case m of Inl e \<Rightarrow> Inl e | Inr x \<Rightarrow> f x)"

subsection \<open>Python's operators on these values\<close>

text \<open>\<^verbatim>\<open>a == b\<close>: a bool is an int (\<^verbatim>\<open>True == 1\<close>), dicts compare without order.\<close>

fun py_eq :: "json \<Rightarrow> json \<Rightarrow> bool" where
  "py_eq JNull JNull = True"
| "py_eq (JBool a) (JBool b) = (a = b)"
| "py_eq (JBool a) (JInt j) = ((if a then 1 else 0) = j)"
| "py_eq (JInt i) (JBool b) = (i = (if b then 1 else 0))"
| "py_eq (JInt i) (JInt j) = (i = j)"
| "py_eq (JStr s) (JStr t) = (s = t)"
| "py_eq (JList xs) (JList ys) = list_all2 py_eq xs ys"
| "py_eq (JDict a) (JDict b) =
     (length a = length b \<and>
      list_all (\<lambda>(k, v). case map_of b k of None \<Rightarrow> False | Some w \<Rightarrow> py_eq v w) a)"
| "py_eq _ _ = False"

text \<open>
  \<^verbatim>\<open>s.startswith(p)\<close>, and \<^verbatim>\<open>sub in s\<close> on strings: \<open>sub\<close> occurs in \<open>s\<close> as a
  contiguous run.
\<close>

fun is_prefix :: "string \<Rightarrow> string \<Rightarrow> bool" where
  "is_prefix [] s = True"
| "is_prefix (c # cs) [] = False"
| "is_prefix (c # cs) (d # ds) = (c = d \<and> is_prefix cs ds)"

fun substring :: "string \<Rightarrow> string \<Rightarrow> bool" where
  "substring sub [] = (sub = [])"
| "substring sub (c # cs) = (is_prefix sub (c # cs) \<or> substring sub cs)"

text \<open>\<^verbatim>\<open>k in c\<close> for a string \<open>k\<close>: key of a dict, element of a list, substring of a string.\<close>

definition py_contains :: "string \<Rightarrow> json \<Rightarrow> error + bool" where
  "py_contains k c =
     (case c of
        JDict d \<Rightarrow> Inr (map_of d k \<noteq> None)
      | JList xs \<Rightarrow> Inr (list_ex (\<lambda>x. py_eq x (JStr k)) xs)
      | JStr s \<Rightarrow> Inr (substring k s)
      | _ \<Rightarrow> Inl TypeError)"

text \<open>\<^verbatim>\<open>c[k]\<close> for a string \<open>k\<close>: only a dict can be indexed by a string.\<close>

definition py_getitem :: "json \<Rightarrow> string \<Rightarrow> error + json" where
  "py_getitem c k =
     (case c of
        JDict d \<Rightarrow> (case map_of d k of None \<Rightarrow> Inl KeyError | Some v \<Rightarrow> Inr v)
      | _ \<Rightarrow> Inl TypeError)"

text \<open>\<^verbatim>\<open>for x in c\<close>: the elements of a list, the keys of a dict, the characters of a string.\<close>

definition py_iter :: "json \<Rightarrow> error + json list" where
  "py_iter c =
     (case c of
        JList xs \<Rightarrow> Inr xs
      | JDict d \<Rightarrow> Inr (map (\<lambda>(k, v). JStr k) d)
      | JStr s \<Rightarrow> Inr (map (\<lambda>ch. JStr [ch]) s)
      | _ \<Rightarrow> Inl TypeError)"

text \<open>\<^verbatim>\<open>str(x)\<close>, which is also what an f-string and \<^verbatim>\<open>str.format\<close> put for \<open>x\<close>.\<close>

function string_of_nat :: "nat \<Rightarrow> string" where
  "string_of_nat n =
     (if n < 10 then [''0123456789'' ! n]
      else string_of_nat (n div 10) @ [''0123456789'' ! (n mod 10)])"
  by pat_completeness auto
termination
  by (relation "measure (\<lambda>n. n)") auto

definition py_str :: "json \<Rightarrow> error + string" where
  "py_str x =
     (case x of
        JStr s \<Rightarrow> Inr s
      | JInt i \<Rightarrow> Inr (if i < 0 then CHR ''-'' # string_of_nat (nat (- i)) else string_of_nat (nat i))
      | JBool b \<Rightarrow> Inr (if b then ''True'' else ''False'')
      | JNull \<Rightarrow> Inr ''None''
      | _ \<Rightarrow> Inl Unmodelled)"

text \<open>\<^verbatim>\<open>s.lower()\<close>, \<^verbatim>\<open>s.split(".")[0]\<close> and \<^verbatim>\<open>os.path.basename(s)\<close> (POSIX).\<close>

definition lower_char :: "char \<Rightarrow> char" where
  "lower_char c =
     (let n = (of_char c :: nat) in if 65 \<le> n \<and> n \<le> 90 then char_of (n + 32) else c)"

definition lower :: "string \<Rightarrow> string" where
  "lower s = map lower_char s"

definition first_segment :: "string \<Rightarrow> string" where
  "first_segment s = takeWhile (\<lambda>c. c \<noteq> CHR ''.'') s"

definition basename :: "string \<Rightarrow> string" where
  "basename p = rev (takeWhile (\<lambda>c. c \<noteq> CHR ''/'') (rev p))"

text \<open>
  \<^verbatim>\<open>template.format(**kwargs)\<close>, for templates made of literal text, the escapes
  \<^verbatim>\<open>{{\<close> and \<^verbatim>\<open>}}\<close>, and fields \<^verbatim>\<open>{name}\<close>. A name that is not a keyword
  argument raises KeyError, an empty or numeric name IndexError (there are no
  positional arguments), a brace without its partner ValueError.
\<close>

definition field_name_plain :: "string \<Rightarrow> bool" where
  "field_name_plain name = list_all (\<lambda>c. c \<notin> set ''{!:.[]'') name"

definition is_digit :: "char \<Rightarrow> bool" where
  "is_digit c = (let n = (of_char c :: nat) in 48 \<le> n \<and> n \<le> 57)"

function py_format :: "string \<Rightarrow> (string \<times> json) list \<Rightarrow> error + string" where
  "py_format [] kwargs = Inr []"
| "py_format (c # cs) kwargs =
     (if c = CHR ''{'' then
        (if cs \<noteq> [] \<and> hd cs = CHR ''{'' then
           then_do (py_format (tl cs) kwargs) (\<lambda>r. Inr (CHR ''{'' # r))
         else
           (let name = takeWhile (\<lambda>x. x \<noteq> CHR ''}'') cs;
                rest = dropWhile (\<lambda>x. x \<noteq> CHR ''}'') cs
            in if rest = [] then Inl ValueError
               else if \<not> field_name_plain name then Inl Unmodelled
               else (case map_of kwargs name of
                       None \<Rightarrow> if list_all is_digit name then Inl IndexError else Inl KeyError
                     | Some v \<Rightarrow>
                         then_do (py_str v) (\<lambda>s.
                         then_do (py_format (tl rest) kwargs) (\<lambda>r. Inr (s @ r))))))
      else if c = CHR ''}'' then
        (if cs \<noteq> [] \<and> hd cs = CHR ''}'' then
           then_do (py_format (tl cs) kwargs) (\<lambda>r. Inr (CHR ''}'' # r))
         else Inl ValueError)
      else then_do (py_format cs kwargs) (\<lambda>r. Inr (c # r)))"
  by pat_completeness auto
termination
proof (relation "measure (\<lambda>(s, kwargs). length s)")
  fix c :: char and cs :: string and x xa :: string
  assume "xa = dropWhile (\<lambda>x. x \<noteq> CHR ''}'') cs"
  then show "((tl xa, kwargs), c # cs, kwargs) \<in> measure (\<lambda>(s, kwargs). length s)" for kwargs :: "(string \<times> json) list"
    using length_dropWhile_le[of "\<lambda>x. x \<noteq> CHR ''}''" cs] by simp
qed auto

section \<open>The schema transformer\<close>

subsection \<open>Close by default\<close>

text \<open>
  \<^verbatim>\<open>additional_properties(data)\<close> builds and returns a new dict, and on its way it
  assigns \<^verbatim>\<open>v["additionalProperties"] = False\<close> into the child dicts of its argument.
  The model returns both: the argument as the call leaves it, and the returned value.
  \<^verbatim>\<open>data.items()\<close> raises AttributeError on anything but a dict, and the handler
  returns \<open>data\<close>.
\<close>

definition close_node :: "(string \<times> json) list \<Rightarrow> (string \<times> json) list" where
  "close_node v =
     (if map_of v ''properties'' \<noteq> None then
        (if map_of v ''additionalProperties'' = None
         then AList.update ''additionalProperties'' (JBool False) v else v)
      else v)"

fun dict_nodes :: "json \<Rightarrow> nat" where
  "dict_nodes (JDict items) = Suc (sum_list (map (\<lambda>(k, v). dict_nodes v) items))"
| "dict_nodes _ = 0"

lemma sum_update_absent:
  "map_of d k = None \<Longrightarrow>
   sum_list (map (\<lambda>(k, v). dict_nodes v) (AList.update k (JBool b) d)) =
   sum_list (map (\<lambda>(k, v). dict_nodes v) d)"
  by (induction d) (auto split: if_splits)

lemma dict_nodes_close_node: "dict_nodes (JDict (close_node v)) = dict_nodes (JDict v)"
  by (simp add: close_node_def sum_update_absent)

function additional_properties :: "json \<Rightarrow> json \<times> json"
  and ap_loop :: "(string \<times> json) list \<Rightarrow> (string \<times> json) list \<Rightarrow> (string \<times> json) list
                   \<Rightarrow> (string \<times> json) list \<times> (string \<times> json) list"
where
  "additional_properties (JDict items) =
     (case ap_loop items items [] of (data, new) \<Rightarrow> (JDict data, JDict new))"
| "additional_properties JNull = (JNull, JNull)"
| "additional_properties (JBool b) = (JBool b, JBool b)"
| "additional_properties (JInt i) = (JInt i, JInt i)"
| "additional_properties (JStr s) = (JStr s, JStr s)"
| "additional_properties (JList xs) = (JList xs, JList xs)"
| "ap_loop [] data new = (data, new)"
| "ap_loop ((k, v) # rest) data new =
     (case v of
        JDict d \<Rightarrow>
          (case additional_properties (JDict (close_node d)) of
             (v', new_v) \<Rightarrow> ap_loop rest (AList.update k v' data) (AList.update k new_v new))
      | _ \<Rightarrow> ap_loop rest data (AList.update k v new))"
  by pat_completeness auto
termination
  apply (relation "measures
    [\<lambda>x. case x of Inl t \<Rightarrow> 2 * dict_nodes t
               | Inr (items, _, _) \<Rightarrow> Suc (2 * sum_list (map (\<lambda>(k, v). dict_nodes v) items)),
     \<lambda>x. case x of Inl t \<Rightarrow> 0 | Inr (items, _, _) \<Rightarrow> length items]")
     apply (auto simp: dict_nodes_close_node simp del: dict_nodes.simps)
  apply auto
  done

subsection \<open>int-or-string widening\<close>

definition ONE_OF :: json where
  "ONE_OF = JDict [(''oneOf'', JList [JDict [(''type'', JStr ''string'')],
                                      JDict [(''type'', JStr ''integer'')]])]"

fun replace_int_or_string :: "json \<Rightarrow> json"
  and ris_loop :: "(string \<times> json) list \<Rightarrow> (string \<times> json) list \<Rightarrow> (string \<times> json) list"
where
  "replace_int_or_string (JDict items) = JDict (ris_loop items [])"
| "replace_int_or_string x = x"
| "ris_loop [] new = new"
| "ris_loop ((k, v) # rest) new =
     ris_loop rest (AList.update k
       (case v of
          JDict d \<Rightarrow>
            if map_of d ''format'' = Some (JStr ''int-or-string'') then ONE_OF
            else replace_int_or_string v
        | JList xs \<Rightarrow> JList (map replace_int_or_string xs)
        | _ \<Rightarrow> v) new)"

subsection \<open>Nullable optional fields\<close>

text \<open>
  The string branch computes \<^verbatim>\<open>has_required_fields\<close> from \<open>grand_parent\<close> and then
  tests \<^verbatim>\<open>is_non_null_type and not has_required_field\<close>: the second name is bound
  nowhere, so evaluating it raises NameError, which the AttributeError handler does
  not catch. \<^verbatim>\<open>and\<close> evaluates its right operand only when the left one is true.
\<close>

function (sequential) allow_null_optional_fields :: "json \<Rightarrow> json option \<Rightarrow> json option \<Rightarrow> string option \<Rightarrow> error + json"
  and anof_loop :: "(string \<times> json) list \<Rightarrow> json \<Rightarrow> json option \<Rightarrow> json option
                     \<Rightarrow> (string \<times> json) list \<Rightarrow> error + (string \<times> json) list"
  and anof_list :: "json list \<Rightarrow> json \<Rightarrow> json option \<Rightarrow> string \<Rightarrow> json list \<Rightarrow> error + json list"
where
  "allow_null_optional_fields (JDict items) parent grand_parent key =
     (case anof_loop items (JDict items) parent grand_parent [] of
        Inl e \<Rightarrow> Inl e
      | Inr new \<Rightarrow> Inr (JDict new))"
| "allow_null_optional_fields x parent grand_parent key = Inr x"
| "anof_loop [] data parent grand_parent new = Inr new"
| "anof_loop ((k, v) # rest) data parent grand_parent new =
     (case v of
        JDict d \<Rightarrow>
          (case allow_null_optional_fields v (Some data) parent (Some k) of
             Inl e \<Rightarrow> Inl e
           | Inr new_v \<Rightarrow> anof_loop rest data parent grand_parent (AList.update k new_v new))
      | JList xs \<Rightarrow>
          (case anof_list xs v parent k [] of
             Inl e \<Rightarrow> Inl e
           | Inr new_v \<Rightarrow> anof_loop rest data parent grand_parent (AList.update k (JList new_v) new))
      | JStr s \<Rightarrow>
          if k = ''type'' \<and> s \<noteq> ''null'' then Inl NameError
          else anof_loop rest data parent grand_parent (AList.update k v new)
      | _ \<Rightarrow> anof_loop rest data parent grand_parent (AList.update k v new))"
| "anof_list [] v parent k new_v = Inr new_v"
| "anof_list (x # xs) v parent k new_v =
     (case allow_null_optional_fields x (Some v) parent (Some k) of
        Inl e \<Rightarrow> Inl e
      | Inr y \<Rightarrow> anof_list xs v parent k (new_v @ [y]))"
  by pat_completeness auto
termination
  by (relation "measure (\<lambda>x. case x of
         Inl (t, _) \<Rightarrow> size t
       | Inr (Inl (items, _)) \<Rightarrow> size_list (size_prod (\<lambda>_. 0) size) items
       | Inr (Inr (xs, _)) \<Rightarrow> size_list size xs)") auto

subsection \<open>Appending without duplicates\<close>

text \<open>
  \<^verbatim>\<open>value not in obj[key]\<close> is a membership test on a list, a key test on a dict (a
  list or dict \<open>value\<close> is unhashable: TypeError), a substring test on a string (a
  \<open>value\<close> that is no string: TypeError); only a list has \<^verbatim>\<open>append\<close>. On an \<open>obj\<close>
  that is no dict the test \<^verbatim>\<open>key not in obj\<close> or the item access raises TypeError.
  The function returns nothing and changes \<open>obj\<close>; the model returns the changed \<open>obj\<close>.
\<close>

definition hashable :: "json \<Rightarrow> bool" where
  "hashable x = (case x of JList xs \<Rightarrow> False | JDict d \<Rightarrow> False | _ \<Rightarrow> True)"

definition append_no_duplicates :: "json \<Rightarrow> string \<Rightarrow> json \<Rightarrow> error + json" where
  "append_no_duplicates obj key val =
     (case obj of
        JDict d \<Rightarrow>
          (let d1 = (if map_of d key = None then AList.update key (JList []) d else d)
           in case map_of d1 key of
                Some (JList xs) \<Rightarrow>
                  if list_ex (\<lambda>x. py_eq x val) xs then Inr (JDict d1)
                  else Inr (JDict (AList.update key (JList (xs @ [val])) d1))
              | Some (JDict e) \<Rightarrow>
                  if \<not> hashable val then Inl TypeError
                  else if (case val of JStr s \<Rightarrow> map_of e s \<noteq> None | _ \<Rightarrow> False) then Inr (JDict d1)
                  else Inl AttributeError
              | Some (JStr s) \<Rightarrow>
                  (case val of
                     JStr sub \<Rightarrow> if substring sub s then Inr (JDict d1) else Inl AttributeError
                   | _ \<Rightarrow> Inl TypeError)
              | _ \<Rightarrow> Inl TypeError)
      | _ \<Rightarrow> Inl TypeError)"

section \<open>The script\<close>

text \<open>
  The dataclass \<^verbatim>\<open>Schema\<close>. Its annotations are not enforced: \<open>kind\<close>, \<open>group\<close> and
  \<open>version\<close> hold whatever the YAML document has at that place.
\<close>

record Schema =
  kind :: json
  group :: json
  version :: json
  definition' :: json

subsection \<open>Extraction\<close>

text \<open>The condition \<^verbatim>\<open>"spec" in y and a in y["spec"] and b in y["spec"][a]\<close>, left to right.\<close>

definition spec_has :: "json \<Rightarrow> string \<Rightarrow> error + bool" where
  "spec_has y a =
     then_do (py_contains ''spec'' y) (\<lambda>has_spec.
       if \<not> has_spec then Inr False
       else then_do (py_getitem y ''spec'') (\<lambda>spec. py_contains a spec))"

definition is_legacy :: "json \<Rightarrow> error + bool" where
  "is_legacy y =
     then_do (spec_has y ''validation'') (\<lambda>has_validation.
       if \<not> has_validation then Inr False
       else then_do (py_getitem y ''spec'') (\<lambda>spec.
            then_do (py_getitem spec ''validation'') (\<lambda>validation.
              py_contains ''openAPIV3Schema'' validation)))"

definition legacy_schema :: "json \<Rightarrow> error + Schema" where
  "legacy_schema y =
     then_do (py_getitem y ''spec'') (\<lambda>spec.
     then_do (py_getitem spec ''names'') (\<lambda>names.
     then_do (py_getitem names ''kind'') (\<lambda>k.
     then_do (py_getitem spec ''group'') (\<lambda>g.
     then_do (py_getitem spec ''version'') (\<lambda>v.
     then_do (py_getitem spec ''validation'') (\<lambda>validation.
     then_do (py_getitem validation ''openAPIV3Schema'') (\<lambda>d.
       Inr \<lparr>kind = k, group = g, version = v, definition' = d\<rparr>)))))))"

definition has_schema :: "json \<Rightarrow> error + bool" where
  "has_schema ver =
     then_do (py_contains ''schema'' ver) (\<lambda>has.
       if \<not> has then Inr False
       else then_do (py_getitem ver ''schema'') (\<lambda>s. py_contains ''openAPIV3Schema'' s))"

definition version_schema :: "json \<Rightarrow> json \<Rightarrow> error + Schema" where
  "version_schema y ver =
     then_do (py_getitem y ''spec'') (\<lambda>spec.
     then_do (py_getitem spec ''names'') (\<lambda>names.
     then_do (py_getitem names ''kind'') (\<lambda>k.
     then_do (py_getitem spec ''group'') (\<lambda>g.
     then_do (py_getitem ver ''name'') (\<lambda>v.
     then_do (py_getitem ver ''schema'') (\<lambda>s.
     then_do (py_getitem s ''openAPIV3Schema'') (\<lambda>d.
       Inr \<lparr>kind = k, group = g, version = v, definition' = d\<rparr>)))))))"

fun versions_loop :: "json \<Rightarrow> json list \<Rightarrow> Schema list \<Rightarrow> error + Schema list" where
  "versions_loop y [] schemas = Inr schemas"
| "versions_loop y (ver # rest) schemas =
     then_do (has_schema ver) (\<lambda>has.
       if has then then_do (version_schema y ver) (\<lambda>s. versions_loop y rest (schemas @ [s]))
       else versions_loop y rest schemas)"

text \<open>The body of \<^verbatim>\<open>for y in yaml.load_all(f)\<close>: the list \<open>schemas\<close> after document \<open>y\<close>.\<close>

definition extract_document :: "json \<Rightarrow> Schema list \<Rightarrow> error + Schema list" where
  "extract_document y schemas =
     then_do (py_contains ''kind'' y) (\<lambda>has_kind.
       if \<not> has_kind then Inr schemas
       else then_do (py_getitem y ''kind'') (\<lambda>kd.
         if \<not> py_eq kd (JStr ''CustomResourceDefinition'') then Inr schemas
         else then_do (is_legacy y) (\<lambda>legacy.
           if legacy then then_do (legacy_schema y) (\<lambda>s. Inr (schemas @ [s]))
           else then_do (spec_has y ''versions'') (\<lambda>modern.
             if modern then
               then_do (py_getitem y ''spec'') (\<lambda>spec.
               then_do (py_getitem spec ''versions'') (\<lambda>versions.
               then_do (py_iter versions) (\<lambda>vs. versions_loop y vs schemas)))
             else Inr schemas))))"

fun documents_loop :: "json list \<Rightarrow> Schema list \<Rightarrow> error + Schema list" where
  "documents_loop [] schemas = Inr schemas"
| "documents_loop (y # ys) schemas =
     then_do (extract_document y schemas) (\<lambda>schemas'. documents_loop ys schemas')"

text \<open>
  What the script reads from outside: the environment variable and the documents
  behind each argument (\<^verbatim>\<open>urllib.request.urlopen\<close> or \<^verbatim>\<open>open\<close>, then
  \<^verbatim>\<open>yaml.load_all\<close>); a failure to open or to parse is an error of the loader.
\<close>

record world =
  FILENAME_FORMAT :: "string option"
  urlopen :: "string \<Rightarrow> error + json list"
  open_file :: "string \<Rightarrow> error + json list"

fun files_loop :: "world \<Rightarrow> string list \<Rightarrow> Schema list \<Rightarrow> error + Schema list" where
  "files_loop w [] schemas = Inr schemas"
| "files_loop w (crdFile # rest) schemas =
     then_do (if is_prefix ''http'' crdFile then urlopen w crdFile else open_file w crdFile) (\<lambda>docs.
     then_do (documents_loop docs schemas) (\<lambda>schemas'. files_loop w rest schemas'))"

subsection \<open>Emission\<close>

datatype event = Print string | Open_w string | Write string json

definition write_schema_file :: "json \<Rightarrow> string \<Rightarrow> event list \<times> json" where
  "write_schema_file schema filename =
     (case additional_properties schema of
        (schema', closed) \<Rightarrow>
          (let out = replace_int_or_string closed;
               filename = basename filename
           in ([Open_w filename, Write filename out, Print filename], schema')))"

definition filename_format :: "world \<Rightarrow> string" where
  "filename_format w = (case FILENAME_FORMAT w of None \<Rightarrow> ''{kind}-{group}-{version}'' | Some t \<Rightarrow> t)"

definition schema_filename :: "string \<Rightarrow> Schema \<Rightarrow> error + string" where
  "schema_filename template schema =
     (case group schema of
        JStr g \<Rightarrow>
          then_do (py_format template
                     [(''kind'', kind schema), (''group'', JStr (first_segment g)),
                      (''version'', version schema)])
            (\<lambda>name. Inr (lower name @ ''.json''))
      | _ \<Rightarrow> Inl AttributeError)"

fun write_loop :: "string \<Rightarrow> Schema list \<Rightarrow> event list \<times> (error + Schema list)" where
  "write_loop template [] = ([], Inr [])"
| "write_loop template (schema # rest) =
     (case schema_filename template schema of
        Inl e \<Rightarrow> ([], Inl e)
      | Inr filename \<Rightarrow>
          (case write_schema_file (definition' schema) filename of
             (evs, d) \<Rightarrow>
               (case write_loop template rest of
                  (evs', r) \<Rightarrow>
                    (evs @ evs',
                     case r of Inl e \<Rightarrow> Inl e
                     | Inr rest' \<Rightarrow> Inr (schema\<lparr>definition' := d\<rparr> # rest')))))"

definition set_item :: "json \<Rightarrow> string \<Rightarrow> json \<Rightarrow> json" where
  "set_item obj k v = (case obj of JDict d \<Rightarrow> JDict (AList.update k v d) | _ \<Rightarrow> obj)"

text \<open>
  \<^verbatim>\<open>append_no_duplicates(schema.definition['properties'][field], 'enum', value)\<close>:
  the definition after the call. The node is changed in place, so the definition
  holds the changed node where it held the old one.
\<close>

definition add_enum :: "json \<Rightarrow> string \<Rightarrow> json \<Rightarrow> error + json" where
  "add_enum d field val =
     then_do (py_getitem d ''properties'') (\<lambda>props.
     then_do (py_getitem props field) (\<lambda>node.
     then_do (append_no_duplicates node ''enum'' val) (\<lambda>node'.
       Inr (set_item d ''properties'' (set_item props field node')))))"

definition api_version :: "Schema \<Rightarrow> error + string" where
  "api_version schema =
     then_do (py_str (group schema)) (\<lambda>g.
     then_do (py_str (version schema)) (\<lambda>v. Inr (g @ ''/'' @ v)))"

definition definition_key :: "Schema \<Rightarrow> error + string" where
  "definition_key schema =
     then_do (py_str (group schema)) (\<lambda>g.
     then_do (py_str (version schema)) (\<lambda>v.
     then_do (py_str (kind schema)) (\<lambda>k. Inr (g @ ''.'' @ v @ ''.'' @ k))))"

fun definitions_loop :: "Schema list \<Rightarrow> (string \<times> json) list \<Rightarrow> error + (string \<times> json) list" where
  "definitions_loop [] definitions = Inr definitions"
| "definitions_loop (schema # rest) definitions =
     then_do (py_getitem (definition' schema) ''properties'') (\<lambda>props.
     then_do (py_getitem props ''apiVersion'') (\<lambda>node.
     then_do (api_version schema) (\<lambda>gv.
     then_do (add_enum (definition' schema) ''apiVersion'' (JStr gv)) (\<lambda>d1.
     then_do (add_enum d1 ''kind'' (kind schema)) (\<lambda>d2.
     then_do (definition_key schema) (\<lambda>key.
       definitions_loop rest (AList.update key d2 definitions)))))))"

fun refs :: "Schema list \<Rightarrow> error + json list" where
  "refs [] = Inr []"
| "refs (schema # rest) =
     then_do (definition_key schema) (\<lambda>key.
     then_do (refs rest) (\<lambda>rs.
       Inr (JDict [(''$ref'', JStr (''_definitions.json#/definitions/'' @ key))] # rs)))"

datatype outcome = Exit nat | Raised error

definition main :: "string list \<Rightarrow> world \<Rightarrow> event list \<times> outcome" where
  "main argv w =
     (if length argv = 0 then ([Print ''missing file''], Exit 1)
      else
        (case files_loop w (drop 1 argv) [] of
           Inl e \<Rightarrow> ([], Raised e)
         | Inr schemas \<Rightarrow>
             (case write_loop (filename_format w) schemas of
                (evs, Inl e) \<Rightarrow> (evs, Raised e)
              | (evs, Inr schemas') \<Rightarrow>
                  (let evs1 = evs @ [Open_w ''_definitions.json''] in
                   case definitions_loop schemas' [] of
                     Inl e \<Rightarrow> (evs1, Raised e)
                   | Inr definitions \<Rightarrow>
                       (let evs2 = evs1 @ [Write ''_definitions.json''
                                             (JDict [(''definitions'', JDict definitions)]),
                                           Open_w ''all.json'']
                        in case refs schemas' of
                             Inl e \<Rightarrow> (evs2, Raised e)
                           | Inr rs \<Rightarrow>
                               (evs2 @ [Write ''all.json'' (JDict [(''oneOf'', JList rs)])],
                                Exit 0))))))"

section \<open>Vocabulary of the statements\<close>

text \<open>
  \<open>key_path t p\<close> is the node reached from \<open>t\<close> by following the keys \<open>p\<close> through
  dicts only; \<open>needs_closing d\<close> says that the dict \<open>d\<close> has \<^verbatim>\<open>properties\<close> and no
  \<^verbatim>\<open>additionalProperties\<close>.
\<close>

fun key_path :: "json \<Rightarrow> string list \<Rightarrow> json option" where
  "key_path t [] = Some t"
| "key_path (JDict d) (k # ks) = (case map_of d k of None \<Rightarrow> None | Some v \<Rightarrow> key_path v ks)"
| "key_path _ (k # ks) = None"

definition needs_closing :: "(string \<times> json) list \<Rightarrow> bool" where
  "needs_closing d = (map_of d ''properties'' \<noteq> None \<and> map_of d ''additionalProperties'' = None)"

text \<open>What the two passes of the write path put for the value \<open>v\<close> of a key.\<close>

definition ap_value :: "json \<Rightarrow> json" where
  "ap_value v = (case v of JDict d \<Rightarrow> snd (additional_properties (JDict (close_node d))) | _ \<Rightarrow> v)"

definition ap_agrees :: "json \<Rightarrow> bool" where
  "ap_agrees v = (case v of
      JDict d \<Rightarrow> fst (additional_properties (JDict (close_node d))) = ap_value v
    | _ \<Rightarrow> True)"

definition ris_value :: "json \<Rightarrow> json" where
  "ris_value v =
     (case v of
        JDict d \<Rightarrow>
          if map_of d ''format'' = Some (JStr ''int-or-string'') then ONE_OF
          else replace_int_or_string v
      | JList xs \<Rightarrow> JList (map replace_int_or_string xs)
      | _ \<Rightarrow> v)"

text \<open>
  \<open>meets_type t\<close>: the walk of \<^verbatim>\<open>allow_null_optional_fields\<close> over \<open>t\<close> comes to an
  entry \<^verbatim>\<open>type\<close> whose value is a string other than \<^verbatim>\<open>"null"\<close>. The walk goes
  through the values of a dict and through the dicts that are elements of a list
  held by a key. \<open>contains_type_entry t\<close>: \<open>t\<close> has such an entry anywhere.
\<close>

fun meets_type :: "json \<Rightarrow> bool"
  and meets_type_items :: "(string \<times> json) list \<Rightarrow> bool"
  and meets_type_list :: "json list \<Rightarrow> bool"
where
  "meets_type (JDict items) = meets_type_items items"
| "meets_type _ = False"
| "meets_type_items [] = False"
| "meets_type_items ((k, v) # rest) =
     ((case v of
         JDict d \<Rightarrow> meets_type (JDict d)
       | JList xs \<Rightarrow> meets_type_list xs
       | JStr s \<Rightarrow> k = ''type'' \<and> s \<noteq> ''null''
       | _ \<Rightarrow> False) \<or> meets_type_items rest)"
| "meets_type_list [] = False"
| "meets_type_list (x # xs) = (meets_type x \<or> meets_type_list xs)"

fun contains_type_entry :: "json \<Rightarrow> bool"
  and contains_type_entry_items :: "(string \<times> json) list \<Rightarrow> bool"
  and contains_type_entry_list :: "json list \<Rightarrow> bool"
where
  "contains_type_entry (JDict items) = contains_type_entry_items items"
| "contains_type_entry (JList xs) = contains_type_entry_list xs"
| "contains_type_entry _ = False"
| "contains_type_entry_items [] = False"
| "contains_type_entry_items ((k, v) # rest) =
     ((k = ''type'' \<and> (case v of JStr s \<Rightarrow> s \<noteq> ''null'' | _ \<Rightarrow> False)) \<or>
      contains_type_entry v \<or> contains_type_entry_items rest)"
| "contains_type_entry_list [] = False"
| "contains_type_entry_list (x # xs) = (contains_type_entry x \<or> contains_type_entry_list xs)"





text \<open>
  \<open>not_iterable x\<close>: \<open>x\<close> is \<^verbatim>\<open>None\<close>, a bool or an int, so that \<^verbatim>\<open>k in x\<close> and
  \<^verbatim>\<open>for v in x\<close> raise TypeError.
\<close>

definition not_iterable :: "json \<Rightarrow> bool" where
  "not_iterable x = (case x of JNull \<Rightarrow> True | JBool b \<Rightarrow> True | JInt i \<Rightarrow> True | _ \<Rightarrow> False)"

subsection \<open>Example inputs\<close>

definition example_schema_body :: json where
  "example_schema_body =
     JDict [(''properties'',
       JDict [(''apiVersion'', JDict [(''type'', JStr ''string'')]),
              (''kind'', JDict [(''type'', JStr ''string'')]),
              (''spec'', JDict [(''properties'',
                 JDict [(''port'', JDict [(''format'', JStr ''int-or-string'')])])])])]"




section \<open>Lemmas\<close>

subsection \<open>Assignment to a dict in a loop\<close>

text \<open>
  \<^verbatim>\<open>new[k] = v\<close> appends the key when it is new and keeps its place when it is not.
  Over the items of a dict, whose keys differ, the loops of the passes build the dict
  of the changed values in the order of the items.
\<close>

lemma update_absent: "k \<notin> fst ` set d \<Longrightarrow> AList.update k v d = d @ [(k, v)]"
  by (induction d) auto

lemma update_middle:
  "k \<notin> fst ` set pre \<Longrightarrow> AList.update k w (pre @ (k, v) # post) = pre @ (k, w) # post"
  by (induction pre) auto

lemma ris_loop_map:
  "distinct (map fst items) \<Longrightarrow> fst ` set new \<inter> fst ` set items = {} \<Longrightarrow>
   ris_loop items new = new @ map (\<lambda>(k, v). (k, ris_value v)) items"
proof (induction items arbitrary: new)
  case Nil
  then show ?case by simp
next
  case (Cons kv rest)
  obtain k v where kv: "kv = (k, v)" by (cases kv)
  have absent: "k \<notin> fst ` set new" using Cons.prems(2) kv by auto
  have step: "ris_loop (kv # rest) new = ris_loop rest (new @ [(k, ris_value v)])"
    using absent by (simp add: kv ris_value_def update_absent)
  have "fst ` set (new @ [(k, ris_value v)]) \<inter> fst ` set rest = {}"
    using Cons.prems kv by auto
  then have "ris_loop rest (new @ [(k, ris_value v)]) =
      (new @ [(k, ris_value v)]) @ map (\<lambda>(k, v). (k, ris_value v)) rest"
    using Cons.IH Cons.prems(1) by simp
  then show ?case using step by (simp add: kv)
qed

lemma replace_int_or_string_dict:
  "distinct (map fst items) \<Longrightarrow>
   replace_int_or_string (JDict items) = JDict (map (\<lambda>(k, v). (k, ris_value v)) items)"
  by (simp add: ris_loop_map)

subsection \<open>Close by default: returned value and changed argument\<close>

lemma wf_close_node: "wf_json (JDict d) \<Longrightarrow> wf_json (JDict (close_node d))"
  by (auto simp: close_node_def update_absent map_of_eq_None_iff)

lemma ap_loop_map:
  "distinct (map fst items) \<Longrightarrow> fst ` set new \<inter> fst ` set items = {} \<Longrightarrow>
   fst ` set pre \<inter> fst ` set items = {} \<Longrightarrow> \<forall>(k, v) \<in> set items. ap_agrees v \<Longrightarrow>
   ap_loop items (pre @ items) new =
     (pre @ map (\<lambda>(k, v). (k, ap_value v)) items, new @ map (\<lambda>(k, v). (k, ap_value v)) items)"
proof (induction items arbitrary: pre new)
  case Nil
  then show ?case by simp
next
  case (Cons kv rest)
  obtain k v where kv: "kv = (k, v)" by (cases kv)
  have knew: "k \<notin> fst ` set new" and kpre: "k \<notin> fst ` set pre" and krest: "k \<notin> fst ` set rest"
    using Cons.prems kv by auto
  have agree: "ap_agrees v" using Cons.prems(4) kv by auto
  have step: "ap_loop (kv # rest) (pre @ kv # rest) new =
      ap_loop rest ((pre @ [(k, ap_value v)]) @ rest) (new @ [(k, ap_value v)])"
  proof (cases v)
    case (JDict d)
    obtain a b where ab: "additional_properties (JDict (close_node d)) = (a, b)"
      by (cases "additional_properties (JDict (close_node d))")
    with agree JDict have "a = b" "b = ap_value v" by (simp_all add: ap_agrees_def ap_value_def)
    then show ?thesis
      using ab JDict knew kpre by (simp add: kv update_absent update_middle)
  qed (use knew in \<open>simp_all add: kv ap_value_def update_absent\<close>)
  have "ap_loop rest ((pre @ [(k, ap_value v)]) @ rest) (new @ [(k, ap_value v)]) =
      ((pre @ [(k, ap_value v)]) @ map (\<lambda>(k, v). (k, ap_value v)) rest,
       (new @ [(k, ap_value v)]) @ map (\<lambda>(k, v). (k, ap_value v)) rest)"
  proof (rule Cons.IH)
    show "distinct (map fst rest)" using Cons.prems(1) by simp
    show "fst ` set (new @ [(k, ap_value v)]) \<inter> fst ` set rest = {}"
      using Cons.prems(2) krest by auto
    show "fst ` set (pre @ [(k, ap_value v)]) \<inter> fst ` set rest = {}"
      using Cons.prems(3) krest by auto
    show "\<forall>(k, v) \<in> set rest. ap_agrees v" using Cons.prems(4) by simp
  qed
  then show ?case using step by (simp add: kv)
qed

lemma ap_induct_facts:
  fixes items data new :: "(string \<times> json) list"
  shows "wf_json t \<longrightarrow> fst (additional_properties t) = snd (additional_properties t) \<and>
      wf_json (snd (additional_properties t))"
  and "list_all (\<lambda>(k, v). wf_json v) items \<longrightarrow>
      list_all (\<lambda>(k, v). ap_agrees v \<and> wf_json (ap_value v)) items"
proof (induction t and items data new rule: additional_properties_ap_loop.induct)
  case (1 items)
  show ?case
  proof (intro impI)
    assume wf: "wf_json (JDict items)"
    then have pre: "distinct (map fst items)" "list_all (\<lambda>(k, v). wf_json v) items" by auto
    with 1 have facts: "list_all (\<lambda>(k, v). ap_agrees v \<and> wf_json (ap_value v)) items" by simp
    then have "\<forall>(k, v) \<in> set items. ap_agrees v" by (auto simp: list_all_iff)
    from ap_loop_map[OF pre(1) _ _ this, of "[]" "[]"]
    have loop: "ap_loop items items [] =
        (map (\<lambda>(k, v). (k, ap_value v)) items, map (\<lambda>(k, v). (k, ap_value v)) items)"
      by simp
    have "distinct (map fst (map (\<lambda>(k, v). (k, ap_value v)) items))"
      using pre(1) by (simp add: comp_def case_prod_beta)
    moreover have "list_all (\<lambda>(k, v). wf_json v) (map (\<lambda>(k, v). (k, ap_value v)) items)"
      using facts by (simp add: list_all_iff case_prod_beta)
    ultimately show "fst (additional_properties (JDict items)) = snd (additional_properties (JDict items)) \<and>
      wf_json (snd (additional_properties (JDict items)))"
      using loop by simp
  qed
next
  case (8 k v rest data new)
  show ?case
  proof (intro impI)
    assume wfi: "list_all (\<lambda>(k, v). wf_json v) ((k, v) # rest)"
    then have wfv: "wf_json v" and wfr: "list_all (\<lambda>(k, v). wf_json v) rest" by simp_all
    have here: "ap_agrees v \<and> wf_json (ap_value v)"
    proof (cases v)
      case (JDict d)
      have "wf_json (JDict (close_node d))" using wfv JDict wf_close_node by simp
      with 8(6)[OF JDict] show ?thesis by (simp add: JDict ap_agrees_def ap_value_def)
    qed (use wfv in \<open>simp_all add: ap_agrees_def ap_value_def\<close>)
    have "list_all (\<lambda>(k, v). ap_agrees v \<and> wf_json (ap_value v)) rest"
    proof (cases v)
      case (JDict d)
      obtain a b where ab: "additional_properties (JDict (close_node d)) = (a, b)"
        by (cases "additional_properties (JDict (close_node d))")
      from 8(7)[OF JDict ab[symmetric]] wfr show ?thesis by simp
    qed (use 8(1-5) wfr in simp_all)
    with here show "list_all (\<lambda>(k, v). ap_agrees v \<and> wf_json (ap_value v)) ((k, v) # rest)"
      by simp
  qed
qed auto

lemma additional_properties_dict:
  assumes "wf_json (JDict items)"
  shows "additional_properties (JDict items) =
    (JDict (map (\<lambda>(k, v). (k, ap_value v)) items), JDict (map (\<lambda>(k, v). (k, ap_value v)) items))"
proof -
  from assms have pre: "distinct (map fst items)" "list_all (\<lambda>(k, v). wf_json v) items" by auto
  with ap_induct_facts(2)[of items] have "\<forall>(k, v) \<in> set items. ap_agrees v"
    by (auto simp: list_all_iff)
  from ap_loop_map[OF pre(1) _ _ this, of "[]" "[]"] show ?thesis by simp
qed

lemma map_of_map_value:
  "map_of (map (\<lambda>(k, v). (k, f v)) xs) k = map_option f (map_of xs k)"
  by (induction xs) auto

lemma fst_case_value [simp]: "fst (case x of (k, v) \<Rightarrow> (k, f v)) = fst x"
  by (cases x) simp

lemma close_node_keys:
  "map fst (close_node d) = (if needs_closing d then map fst d @ [''additionalProperties''] else map fst d)"
  by (auto simp: close_node_def needs_closing_def update_absent map_of_eq_None_iff)

lemma close_node_lookup_old: "map_of d k = Some w \<Longrightarrow> map_of (close_node d) k = Some w"
  by (auto simp: close_node_def update_conv')

lemma close_node_lookup_new:
  "needs_closing d \<Longrightarrow> map_of (close_node d) ''additionalProperties'' = Some (JBool False)"
  by (simp add: close_node_def needs_closing_def update_conv')

lemma ap_value_scalar [simp]:
  "ap_value JNull = JNull" "ap_value (JBool b) = JBool b" "ap_value (JInt i) = JInt i"
  "ap_value (JStr s) = JStr s" "ap_value (JList xs) = JList xs"
  by (simp_all add: ap_value_def)

lemma ap_value_dict:
  assumes "wf_json (JDict d)"
  shows "ap_value (JDict d) = JDict (map (\<lambda>(k, v). (k, ap_value v)) (close_node d))"
  using additional_properties_dict[OF wf_close_node[OF assms]] by (simp add: ap_value_def)

lemma wf_lookup: "wf_json (JDict d) \<Longrightarrow> map_of d k = Some w \<Longrightarrow> wf_json w"
  by (auto simp: list_all_iff dest: map_of_SomeD)

lemma ap_value_path:
  "wf_json v \<Longrightarrow> key_path v p = Some n \<Longrightarrow>
   (case n of
      JDict d \<Rightarrow> (\<exists>d'. key_path (ap_value v) p = Some (JDict d') \<and>
                    map fst d' = map fst (close_node d) \<and>
                    (needs_closing d \<longrightarrow> map_of d' ''additionalProperties'' = Some (JBool False)))
    | _ \<Rightarrow> key_path (ap_value v) p = Some n)"
proof (induction p arbitrary: v)
  case Nil
  then have n: "n = v" by simp
  show ?case
  proof (cases v)
    case (JDict d)
    with Nil.prems(1) have "ap_value v = JDict (map (\<lambda>(k, v). (k, ap_value v)) (close_node d))"
      using ap_value_dict by simp
    then show ?thesis
      using n JDict by (simp add: map_of_map_value close_node_lookup_new)
  qed (simp_all add: n)
next
  case (Cons k ks)
  from Cons.prems(2) obtain d w where v: "v = JDict d" and w: "map_of d k = Some w"
    and path: "key_path w ks = Some n"
    by (cases v) (auto split: option.splits)
  have wfw: "wf_json w" using Cons.prems(1) v w wf_lookup by blast
  have "ap_value v = JDict (map (\<lambda>(k, v). (k, ap_value v)) (close_node d))"
    using Cons.prems(1) v ap_value_dict by simp
  then have eq: "key_path (ap_value v) (k # ks) = key_path (ap_value w) ks"
    using close_node_lookup_old[OF w] by (simp add: map_of_map_value)
  show ?case unfolding eq by (rule Cons.IH[OF wfw path])
qed



lemma needs_closing_keys: "map fst d = map fst e \<Longrightarrow> needs_closing d = needs_closing e"
  by (simp add: needs_closing_def map_of_eq_None_iff) (metis list.set_map)

lemma close_node_fixed: "\<not> needs_closing d \<Longrightarrow> close_node d = d"
  by (auto simp: close_node_def needs_closing_def)

lemma not_needs_closing_close_node: "\<not> needs_closing (close_node d)"
  by (auto simp: close_node_def needs_closing_def update_conv')

lemma wf_ap_value: "wf_json v \<Longrightarrow> wf_json (ap_value v)"
  using ap_induct_facts(1)[of "JDict (close_node d)" for d] wf_close_node
  by (cases v) (auto simp: ap_value_def simp del: additional_properties.simps)

lemma ap_value_idem: "wf_json v \<Longrightarrow> ap_value (ap_value v) = ap_value v"
proof (induction v rule: wf_json.induct)
  case (1 items)
  let ?G = "\<lambda>(k, v). (k, ap_value v)"
  let ?c = "close_node items"
  have wf1: "wf_json (JDict items)" by fact
  have step1: "ap_value (JDict items) = JDict (map ?G ?c)" by (rule ap_value_dict[OF wf1])
  have wf2: "wf_json (JDict (map ?G ?c))" using wf_ap_value[OF wf1] step1 by simp
  have "\<not> needs_closing (map ?G ?c)"
    using needs_closing_keys[of "map ?G ?c" ?c] not_needs_closing_close_node by simp
  then have fixed: "close_node (map ?G ?c) = map ?G ?c" by (rule close_node_fixed)
  have "ap_value (JDict (map ?G ?c)) = JDict (map ?G (map ?G ?c))"
    using ap_value_dict[OF wf2] fixed by simp
  moreover have "map ?G (map ?G ?c) = map ?G ?c"
  proof -
    have "ap_value (ap_value w) = ap_value w" if "(k, w) \<in> set ?c" for k w
    proof (cases "(k, w) \<in> set items")
      case True
      then have "wf_json w" using wf1 by (auto simp: list_all_iff)
      with 1 True show ?thesis by simp 
    next
      case False
      with that have "w = JBool False"
        by (auto simp: close_node_def update_absent map_of_eq_None_iff split: if_splits)
      then show ?thesis by simp
    qed
    then show ?thesis by auto
  qed
  ultimately show ?case using step1 by simp
qed simp_all

lemma additional_properties_idem:
  assumes "wf_json t"
  shows "snd (additional_properties (snd (additional_properties t))) = snd (additional_properties t)"
proof (cases t)
  case (JDict items)
  let ?G = "\<lambda>(k, v). (k, ap_value v)"
  have r1: "snd (additional_properties t) = JDict (map ?G items)"
    using additional_properties_dict assms JDict by simp
  have wf2: "wf_json (JDict (map ?G items))"
    using ap_induct_facts(1)[of t] assms r1 by simp
  have "map ?G (map ?G items) = map ?G items"
  proof -
    have "ap_value (ap_value w) = ap_value w" if "(k, w) \<in> set items" for k w
      using that assms JDict ap_value_idem by (auto simp: list_all_iff)
    then show ?thesis by auto
  qed
  then show ?thesis
    using additional_properties_dict[OF wf2] r1 by simp
qed simp_all

subsection \<open>int-or-string widening\<close>

lemma ris_value_scalar [simp]:
  "ris_value JNull = JNull" "ris_value (JBool b) = JBool b" "ris_value (JInt i) = JInt i"
  "ris_value (JStr s) = JStr s" "ris_value (JList xs) = JList (map replace_int_or_string xs)"
  by (simp_all add: ris_value_def)

lemma ris_value_dict:
  "ris_value (JDict d) =
     (if map_of d ''format'' = Some (JStr ''int-or-string'') then ONE_OF
      else replace_int_or_string (JDict d))"
  by (simp add: ris_value_def)

lemma ris_value_eq_str: "ris_value w = JStr s \<longleftrightarrow> w = JStr s"
  by (cases w) (auto simp: ris_value_dict ONE_OF_def)

lemma replace_int_or_string_ONE_OF: "replace_int_or_string ONE_OF = ONE_OF"
  by (simp add: ONE_OF_def)

lemma ris_value_ONE_OF: "ris_value ONE_OF = ONE_OF"
  by (simp add: ONE_OF_def ris_value_dict)

lemma ris_idem_both:
  "wf_json v \<Longrightarrow>
   replace_int_or_string (replace_int_or_string v) = replace_int_or_string v \<and>
   ris_value (ris_value v) = ris_value v"
proof (induction v rule: wf_json.induct)
  case (1 items)
  let ?R = "\<lambda>(k, v). (k, ris_value v)"
  have dist: "distinct (map fst items)" using 1(2) by simp
  have dist2: "distinct (map fst (map ?R items))" using dist by (simp add: comp_def)
  have r1: "replace_int_or_string (JDict items) = JDict (map ?R items)"
    by (rule replace_int_or_string_dict[OF dist])
  have r2: "replace_int_or_string (JDict (map ?R items)) = JDict (map ?R (map ?R items))"
    by (rule replace_int_or_string_dict[OF dist2])
  have "ris_value (ris_value w) = ris_value w" if "(k, w) \<in> set items" for k w
    using 1 that by (auto simp: list_all_iff)
  then have same: "map ?R (map ?R items) = map ?R items" by auto
  have a: "replace_int_or_string (replace_int_or_string (JDict items)) = replace_int_or_string (JDict items)"
    using r1 r2 same by simp
  have nofmt: "map_of (map ?R items) ''format'' \<noteq> Some (JStr ''int-or-string'')"
    if "map_of items ''format'' \<noteq> Some (JStr ''int-or-string'')"
    using that by (auto simp: map_of_map_value ris_value_eq_str)
  have b: "ris_value (ris_value (JDict items)) = ris_value (JDict items)"
  proof (cases "map_of items ''format'' = Some (JStr ''int-or-string'')")
    case True
    then show ?thesis by (simp add: ris_value_dict ris_value_ONE_OF)
  next
    case False
    then have "ris_value (JDict items) = JDict (map ?R items)"
      using r1 by (simp add: ris_value_dict)
    moreover have "ris_value (JDict (map ?R items)) = JDict (map ?R items)"
      using nofmt[OF False] r2 same by (simp add: ris_value_dict)
    ultimately show ?thesis by simp
  qed
  from a b show ?case by simp
next
  case (2 xs)
  then have "replace_int_or_string (replace_int_or_string x) = replace_int_or_string x"
    if "x \<in> set xs" for x
    using that by (auto simp: list_all_iff)
  then show ?case by simp
qed simp_all

subsection \<open>The nullable-optional pass\<close>

lemma anof_facts:
  fixes items new :: "(string \<times> json) list" and xs new_v :: "json list"
  shows "wf_json t \<longrightarrow>
     allow_null_optional_fields t parent grand_parent key =
       (if meets_type t then Inl NameError else Inr t)"
  and "distinct (map fst items) \<and> list_all (\<lambda>(k, v). wf_json v) items \<and>
       fst ` set new \<inter> fst ` set items = {} \<longrightarrow>
     anof_loop items data parent' grand_parent' new =
       (if meets_type_items items then Inl NameError else Inr (new @ items))"
  and "list_all wf_json xs \<longrightarrow>
     anof_list xs v parent'' k new_v =
       (if meets_type_list xs then Inl NameError else Inr (new_v @ xs))"
proof (induction t parent grand_parent key and items data parent' grand_parent' new
         and xs v parent'' k new_v rule: allow_null_optional_fields_anof_loop_anof_list.induct)
  case (4 k v rest data parent grand_parent new)
  show ?case
  proof (intro impI, elim conjE)
    assume dist: "distinct (map fst ((k, v) # rest))"
      and wfs: "list_all (\<lambda>(k, v). wf_json v) ((k, v) # rest)"
      and disj: "fst ` set new \<inter> fst ` set ((k, v) # rest) = {}"
    have knew: "k \<notin> fst ` set new" using disj by auto
    have wfv: "wf_json v" using wfs by simp
    have pre: "distinct (map fst rest) \<and> list_all (\<lambda>(k, v). wf_json v) rest \<and>
        fst ` set (new @ [(k, w)]) \<inter> fst ` set rest = {}" for w
      using dist wfs disj by auto
    show "anof_loop ((k, v) # rest) data parent grand_parent new =
       (if meets_type_items ((k, v) # rest) then Inl NameError else Inr (new @ (k, v) # rest))"
    proof (cases v)
      case JNull
      with 4(1)[OF JNull] pre[of v] knew show ?thesis by (simp add: update_absent)
    next
      case (JBool b)
      with 4(2)[OF JBool] pre[of v] knew show ?thesis by (simp add: update_absent)
    next
      case (JInt i)
      with 4(3)[OF JInt] pre[of v] knew show ?thesis by (simp add: update_absent)
    next
      case (JStr s)
      show ?thesis
      proof (cases "k = ''type'' \<and> s \<noteq> ''null''")
        case True
        then show ?thesis using JStr by simp
      next
        case False
        with 4(4)[OF JStr False] pre[of v] knew JStr show ?thesis by (auto simp: update_absent)
      qed
    next
      case (JList xs)
      have r: "anof_list xs v parent k [] = (if meets_type_list xs then Inl NameError else Inr xs)"
        using 4(5)[OF JList] wfv JList by simp
      show ?thesis
      proof (cases "meets_type_list xs")
        case True
        then show ?thesis using r JList by simp
      next
        case False
        with r have r': "anof_list xs v parent k [] = Inr xs" by simp
        from 4(6)[OF JList r'] pre[of v] knew JList False r' show ?thesis
          by (simp add: update_absent)
      qed
    next
      case (JDict d)
      have r: "allow_null_optional_fields v (Some data) parent (Some k) =
          (if meets_type v then Inl NameError else Inr v)"
        using 4(7)[OF JDict] wfv by simp
      show ?thesis
      proof (cases "meets_type v")
        case True
        then show ?thesis using r JDict by simp
      next
        case False
        with r have r': "allow_null_optional_fields v (Some data) parent (Some k) = Inr v" by simp
        from 4(8)[OF JDict r'] pre[of v] knew JDict False r' show ?thesis
          by (simp add: update_absent)
      qed
    qed
  qed
next
  case (6 x xs v parent k new_v)
  show ?case
  proof (intro impI)
    assume wfs: "list_all wf_json (x # xs)"
    then have r: "allow_null_optional_fields x (Some v) parent (Some k) =
        (if meets_type x then Inl NameError else Inr x)"
      using 6(1) by simp
    show "anof_list (x # xs) v parent k new_v =
       (if meets_type_list (x # xs) then Inl NameError else Inr (new_v @ x # xs))"
    proof (cases "meets_type x")
      case True
      then show ?thesis using r by simp
    next
      case False
      with r have r': "allow_null_optional_fields x (Some v) parent (Some k) = Inr x" by simp
      from 6(2)[OF r'] wfs False r' show ?thesis by simp
    qed
  qed
qed auto

subsection \<open>Appending without duplicates\<close>

lemma py_eq_refl: "wf_json v \<Longrightarrow> py_eq v v"
proof (induction v rule: wf_json.induct)
  case (1 items)
  have "case map_of items k of None \<Rightarrow> False | Some w \<Rightarrow> py_eq v w" if "(k, v) \<in> set items" for k v
  proof -
    have "map_of items k = Some v" using 1(2) that by simp
    moreover have "py_eq v v" using 1 that by (auto simp: list_all_iff)
    ultimately show ?thesis by simp
  qed
  then show ?case by (auto simp: list_all_iff)
next
  case (2 xs)
  then show ?case by (auto simp: list_all_iff list_all2_same)
qed simp_all

lemma append_no_duplicates_result:
  assumes "(map_of d key = None \<and> xs = []) \<or> map_of d key = Some (JList xs)"
  shows "append_no_duplicates (JDict d) key val =
    Inr (JDict (AList.update key
      (JList (if list_ex (\<lambda>x. py_eq x val) xs then xs else xs @ [val])) d))"
  using assms
  by (auto simp: append_no_duplicates_def update_conv' update_last update_triv Let_def)

subsection \<open>Extraction\<close>

lemma then_do_simps [simp]:
  "then_do (Inl e) f = Inl e" "then_do (Inr x) f = f x"
  by (simp_all add: then_do_def)

lemma py_getitem_dict [simp]:
  "py_getitem (JDict d) k = (case map_of d k of None \<Rightarrow> Inl KeyError | Some v \<Rightarrow> Inr v)"
  by (simp add: py_getitem_def)

lemma py_contains_dict [simp]: "py_contains k (JDict d) = Inr (map_of d k \<noteq> None)"
  by (simp add: py_contains_def)

lemma extract_no_spec:
  assumes "map_of d ''kind'' = Some (JStr ''CustomResourceDefinition'')"
    and "map_of d ''spec'' = None"
  shows "extract_document (JDict d) schemas = Inr schemas"
  using assms by (simp add: extract_document_def is_legacy_def spec_has_def)

lemma extract_neither:
  assumes "map_of d ''kind'' = Some (JStr ''CustomResourceDefinition'')"
    and "map_of d ''spec'' = Some (JDict s)"
    and "map_of s ''validation'' = None \<or>
         (\<exists>v. map_of s ''validation'' = Some (JDict v) \<and> map_of v ''openAPIV3Schema'' = None)"
    and "map_of s ''versions'' = None"
  shows "extract_document (JDict d) schemas = Inr schemas"
  using assms by (auto simp: extract_document_def is_legacy_def spec_has_def)

lemma extract_legacy:
  assumes "map_of d ''kind'' = Some (JStr ''CustomResourceDefinition'')"
    and "map_of d ''spec'' = Some (JDict s)"
    and "map_of s ''validation'' = Some (JDict v)"
    and "map_of v ''openAPIV3Schema'' = Some body"
  shows "extract_document (JDict d) schemas =
    (case map_of s ''names'' of
       None \<Rightarrow> Inl KeyError
     | Some names \<Rightarrow>
        (case py_getitem names ''kind'' of
           Inl e \<Rightarrow> Inl e
         | Inr k \<Rightarrow>
            (case map_of s ''group'' of
               None \<Rightarrow> Inl KeyError
             | Some g \<Rightarrow>
                (case map_of s ''version'' of
                   None \<Rightarrow> Inl KeyError
                 | Some ver \<Rightarrow>
                     Inr (schemas @ [\<lparr>kind = k, group = g, version = ver, definition' = body\<rparr>])))))"
  using assms
  by (auto simp: extract_document_def is_legacy_def spec_has_def legacy_schema_def
      split: option.splits sum.splits)

lemma extract_modern:
  assumes "map_of d ''kind'' = Some (JStr ''CustomResourceDefinition'')"
    and "map_of d ''spec'' = Some (JDict s)"
    and "map_of s ''validation'' = None \<or>
         (\<exists>v. map_of s ''validation'' = Some (JDict v) \<and> map_of v ''openAPIV3Schema'' = None)"
    and "map_of s ''versions'' = Some (JList vs)"
  shows "extract_document (JDict d) schemas = versions_loop (JDict d) vs schemas"
  using assms by (auto simp: extract_document_def is_legacy_def spec_has_def py_iter_def)

lemma versions_loop_skip:
  assumes "map_of ver ''schema'' = None \<or>
     (\<exists>sc. map_of ver ''schema'' = Some (JDict sc) \<and> map_of sc ''openAPIV3Schema'' = None)"
  shows "versions_loop y (JDict ver # rest) schemas = versions_loop y rest schemas"
  using assms by (auto simp: has_schema_def)

lemma versions_loop_entry:
  assumes "map_of d ''spec'' = Some (JDict s)"
    and "map_of ver ''schema'' = Some (JDict sc)"
    and "map_of sc ''openAPIV3Schema'' = Some body"
  shows "versions_loop (JDict d) (JDict ver # rest) schemas =
    (case map_of s ''names'' of
       None \<Rightarrow> Inl KeyError
     | Some names \<Rightarrow>
        (case py_getitem names ''kind'' of
           Inl e \<Rightarrow> Inl e
         | Inr k \<Rightarrow>
            (case map_of s ''group'' of
               None \<Rightarrow> Inl KeyError
             | Some g \<Rightarrow>
                (case map_of ver ''name'' of
                   None \<Rightarrow> Inl KeyError
                 | Some n \<Rightarrow>
                     versions_loop (JDict d) rest
                       (schemas @ [\<lparr>kind = k, group = g, version = n, definition' = body\<rparr>])))))"
  using assms
  by (auto simp: has_schema_def version_schema_def split: option.splits sum.splits)

lemma py_contains_not_iterable: "not_iterable x \<Longrightarrow> py_contains k x = Inl TypeError"
  by (cases x) (simp_all add: not_iterable_def py_contains_def)

lemma py_iter_not_iterable: "not_iterable x \<Longrightarrow> py_iter x = Inl TypeError"
  by (cases x) (simp_all add: not_iterable_def py_iter_def)

lemma extract_neither_general:
  assumes "map_of d ''kind'' = Some (JStr ''CustomResourceDefinition'')"
    and "is_legacy (JDict d) = Inr False" and "spec_has (JDict d) ''versions'' = Inr False"
  shows "extract_document (JDict d) schemas = Inr schemas"
  using assms by (simp add: extract_document_def)

lemma extract_spec_not_iterable:
  assumes "map_of d ''kind'' = Some (JStr ''CustomResourceDefinition'')"
    and "map_of d ''spec'' = Some sp" and "not_iterable sp"
  shows "extract_document (JDict d) schemas = Inl TypeError"
  using assms
  by (simp add: extract_document_def is_legacy_def spec_has_def py_contains_not_iterable)

lemma extract_validation_not_iterable:
  assumes "map_of d ''kind'' = Some (JStr ''CustomResourceDefinition'')"
    and "map_of d ''spec'' = Some (JDict s)"
    and "map_of s ''validation'' = Some val" and "not_iterable val"
  shows "extract_document (JDict d) schemas = Inl TypeError"
  using assms
  by (simp add: extract_document_def is_legacy_def spec_has_def py_contains_not_iterable)

lemma extract_versions_not_iterable:
  assumes "map_of d ''kind'' = Some (JStr ''CustomResourceDefinition'')"
    and "map_of d ''spec'' = Some (JDict s)"
    and "map_of s ''validation'' = None \<or>
         (\<exists>v. map_of s ''validation'' = Some (JDict v) \<and> map_of v ''openAPIV3Schema'' = None)"
    and "map_of s ''versions'' = Some vs" and "not_iterable vs"
  shows "extract_document (JDict d) schemas = Inl TypeError"
  using assms
  by (auto simp: extract_document_def is_legacy_def spec_has_def py_iter_not_iterable)

lemma versions_loop_entry_not_iterable:
  "not_iterable ver \<Longrightarrow> versions_loop y (ver # rest) schemas = Inl TypeError"
  by (simp add: has_schema_def py_contains_not_iterable)

lemma versions_loop_schema_not_iterable:
  "map_of ver ''schema'' = Some sc \<Longrightarrow> not_iterable sc \<Longrightarrow>
   versions_loop y (JDict ver # rest) schemas = Inl TypeError"
  by (simp add: has_schema_def py_contains_not_iterable)

lemma shape_tests_maps:
  "map_of d ''spec'' = None \<Longrightarrow>
     is_legacy (JDict d) = Inr False \<and> spec_has (JDict d) ''versions'' = Inr False"
  "map_of d ''spec'' = Some (JDict s) \<Longrightarrow>
     map_of s ''validation'' = None \<or>
       (\<exists>v. map_of s ''validation'' = Some (JDict v) \<and> map_of v ''openAPIV3Schema'' = None) \<Longrightarrow>
     is_legacy (JDict d) = Inr False \<and>
     spec_has (JDict d) ''versions'' = Inr (map_of s ''versions'' \<noteq> None)"
  by (auto simp: is_legacy_def spec_has_def)

subsection \<open>File names\<close>




lemma write_schema_file_events:
  "fst (write_schema_file d filename) =
     [Open_w (basename filename),
      Write (basename filename) (replace_int_or_string (snd (additional_properties d))),
      Print (basename filename)]"
  by (simp add: write_schema_file_def Let_def split: prod.splits)











subsection \<open>The definitions step\<close>













section \<open>The claims\<close>

subsection \<open>C1: close by default\<close>

text \<open>
  C1, as amended. Let the input be a dict whose dicts hold no key twice, and take any
  node of it that is reached from the root through dict keys only. A dict node other
  than the root that has \<^verbatim>\<open>properties\<close> and no \<^verbatim>\<open>additionalProperties\<close> comes out with
  the key \<^verbatim>\<open>additionalProperties\<close> appended, holding \<^verbatim>\<open>False\<close>; every other dict node,
  the root included, comes out with the keys it had; a list or a scalar comes out as
  it was, so no node inside a list is changed.
\<close>

theorem additional_properties_closes_map_values:
  assumes "wf_json (JDict items)" and "key_path (JDict items) p = Some n"
  shows "case n of
      JDict d \<Rightarrow> (\<exists>d'. key_path (snd (additional_properties (JDict items))) p = Some (JDict d') \<and>
          map fst d' = (if p \<noteq> [] \<and> needs_closing d then map fst d @ [''additionalProperties'']
                        else map fst d) \<and>
          (p \<noteq> [] \<and> needs_closing d \<longrightarrow> map_of d' ''additionalProperties'' = Some (JBool False)))
    | _ \<Rightarrow> key_path (snd (additional_properties (JDict items))) p = Some n"
proof (cases p)
  case Nil
  with assms(2) have "n = JDict items" by simp
  then show ?thesis
    using Nil additional_properties_dict[OF assms(1)] by (simp del: additional_properties.simps)
next
  case (Cons k ks)
  from assms(2) Cons obtain w where w: "map_of items k = Some w" and path: "key_path w ks = Some n"
    by (auto split: option.splits)
  have wfw: "wf_json w" using assms(1) w wf_lookup by blast
  have eq: "key_path (snd (additional_properties (JDict items))) p = key_path (ap_value w) ks"
    using additional_properties_dict[OF assms(1)] Cons w
    by (simp add: map_of_map_value del: additional_properties.simps)
  have "p \<noteq> []" using Cons by simp
  with ap_value_path[OF wfw path] show ?thesis
    unfolding eq by (cases n) (simp_all add: close_node_keys)
qed

theorem additional_properties_closes_map_values_witness:
  "wf_json (JDict [(''spec'', JDict [(''properties'', JDict [])])]) \<and>
   key_path (JDict [(''spec'', JDict [(''properties'', JDict [])])]) [''spec''] =
     Some (JDict [(''properties'', JDict [])]) \<and>
   (\<exists>d'. key_path (snd (additional_properties (JDict [(''spec'', JDict [(''properties'', JDict [])])])))
            [''spec''] = Some (JDict d') \<and>
         map fst d' = [''properties'', ''additionalProperties''] \<and>
         map_of d' ''additionalProperties'' = Some (JBool False))"
proof -
  have wf: "wf_json (JDict [(''spec'', JDict [(''properties'', JDict [])])])" by simp
  have path: "key_path (JDict [(''spec'', JDict [(''properties'', JDict [])])]) [''spec''] =
      Some (JDict [(''properties'', JDict [])])" by simp
  have needs: "needs_closing [(''properties'', JDict [])]" by (simp add: needs_closing_def)
  from additional_properties_closes_map_values[OF wf path] needs wf path show ?thesis
    by (simp del: additional_properties.simps wf_json.simps key_path.simps)
qed

text \<open>
  C1 as stated fails at the root and inside a list: in both inputs a dict has
  \<^verbatim>\<open>properties\<close> and no \<^verbatim>\<open>additionalProperties\<close>, and the pass returns the input as it is.
\<close>

theorem additional_properties_root_counterexample:
  "snd (additional_properties (JDict [(''properties'', JDict [])])) =
     JDict [(''properties'', JDict [])] \<and>
   snd (additional_properties (JDict [(''items'', JList [JDict [(''properties'', JDict [])]])])) =
     JDict [(''items'', JList [JDict [(''properties'', JDict [])]])]"
  by (simp add: close_node_def)

subsection \<open>C2: int-or-string widening\<close>

text \<open>
  C2, as amended. On a dict (with no key twice) the pass returns a dict with the same
  keys in the same order, and decides by the value of each key: a dict value whose
  \<^verbatim>\<open>format\<close> is the string \<^verbatim>\<open>int-or-string\<close> is replaced by the \<^verbatim>\<open>oneOf\<close> of string
  and integer, whatever other keys it has; any other dict value is passed through the
  pass; a list value is rebuilt with the pass applied to each element; a scalar value
  stays. The argument of a call is itself never tested for \<^verbatim>\<open>format\<close> (so that neither
  the root nor a dict that is an element of a list is replaced), and an argument
  that is no dict (a list inside a list, a scalar) is returned as it is.
\<close>

theorem replace_int_or_string_map_values:
  assumes "distinct (map fst items)"
  shows "replace_int_or_string (JDict items) =
      JDict (map (\<lambda>(k, v). (k,
        case v of
          JDict d \<Rightarrow>
            if map_of d ''format'' = Some (JStr ''int-or-string'') then ONE_OF
            else replace_int_or_string v
        | JList xs \<Rightarrow> JList (map replace_int_or_string xs)
        | _ \<Rightarrow> v)) items) \<and>
    replace_int_or_string (JList xs) = JList xs \<and>
    replace_int_or_string (JStr s) = JStr s \<and>
    replace_int_or_string (JInt i) = JInt i \<and>
    replace_int_or_string (JBool b) = JBool b \<and>
    replace_int_or_string JNull = JNull"
  using replace_int_or_string_dict[OF assms] by (simp add: ris_value_def)

theorem replace_int_or_string_map_values_witness:
  "distinct (map fst [(''port'', JDict [(''format'', JStr ''int-or-string''), (''description'', JStr ''p'')]),
                      (''anyOf'', JList [JDict [(''x'', JDict [(''format'', JStr ''int-or-string'')])], JInt 1]),
                      (''type'', JStr ''object'')]) \<and>
   replace_int_or_string
     (JDict [(''port'', JDict [(''format'', JStr ''int-or-string''), (''description'', JStr ''p'')]),
             (''anyOf'', JList [JDict [(''x'', JDict [(''format'', JStr ''int-or-string'')])], JInt 1]),
             (''type'', JStr ''object'')]) =
     JDict [(''port'', ONE_OF),
            (''anyOf'', JList [JDict [(''x'', ONE_OF)], JInt 1]),
            (''type'', JStr ''object'')]"
proof -
  have d: "distinct (map fst [(''port'', JDict [(''format'', JStr ''int-or-string''), (''description'', JStr ''p'')]),
                      (''anyOf'', JList [JDict [(''x'', JDict [(''format'', JStr ''int-or-string'')])], JInt 1]),
                      (''type'', JStr ''object'')])" by simp
  from replace_int_or_string_map_values[OF d] d show ?thesis by simp
qed

text \<open>
  C2 as stated fails for the root, for a dict that is an element of a list, and below
  a list that is an element of a list: each input has a dict whose \<^verbatim>\<open>format\<close> is
  \<^verbatim>\<open>int-or-string\<close>, and the pass returns the input as it is.
\<close>

theorem replace_int_or_string_counterexample:
  "replace_int_or_string (JDict [(''format'', JStr ''int-or-string'')]) =
     JDict [(''format'', JStr ''int-or-string'')] \<and>
   replace_int_or_string (JDict [(''anyOf'', JList [JDict [(''format'', JStr ''int-or-string'')]])]) =
     JDict [(''anyOf'', JList [JDict [(''format'', JStr ''int-or-string'')]])] \<and>
   replace_int_or_string
     (JDict [(''a'', JList [JList [JDict [(''b'', JDict [(''format'', JStr ''int-or-string'')])]]])]) =
     JDict [(''a'', JList [JList [JDict [(''b'', JDict [(''format'', JStr ''int-or-string'')])]]])]"
  by simp

subsection \<open>C3: the nullable-optional pass\<close>

text \<open>
  C3, as amended. On a tree whose dicts hold no key twice the pass has two outcomes
  only. If its walk comes to an entry \<^verbatim>\<open>type\<close> whose value is a string other than
  \<^verbatim>\<open>"null"\<close> (in the root dict, in a dict that is the value of a key, or in a dict
  that is an element of a list held by a key), it raises NameError; otherwise it
  returns the tree unchanged. It never returns a widened tree. An entry below a list
  that is itself an element of a list, or in a root that is no dict, is not walked.
  The write path does not call the pass: \<open>write_schema_file\<close> writes the result of the
  two other passes, for every input.
\<close>

theorem allow_null_optional_fields_name_error:
  assumes "wf_json t"
  shows "allow_null_optional_fields t parent grand_parent key =
      (if meets_type t then Inl NameError else Inr t) \<and>
    fst (write_schema_file t filename) =
      [Open_w (basename filename),
       Write (basename filename) (replace_int_or_string (snd (additional_properties t))),
       Print (basename filename)]"
proof -
  have "wf_json t \<longrightarrow> allow_null_optional_fields t parent grand_parent key =
      (if meets_type t then Inl NameError else Inr t)"
    by (rule anof_facts(1))
  with assms show ?thesis by (simp add: write_schema_file_events)
qed

theorem allow_null_optional_fields_name_error_witness:
  "wf_json example_schema_body \<and> meets_type example_schema_body \<and>
   allow_null_optional_fields example_schema_body None None None = Inl NameError \<and>
   wf_json (JDict [(''type'', JStr ''null''), (''enum'', JList [JStr ''a''])]) \<and>
   allow_null_optional_fields (JDict [(''type'', JStr ''null''), (''enum'', JList [JStr ''a''])])
     None None None = Inr (JDict [(''type'', JStr ''null''), (''enum'', JList [JStr ''a''])])"
proof -
  have wf1: "wf_json example_schema_body" by (simp add: example_schema_body_def)
  have m1: "meets_type example_schema_body" by (simp add: example_schema_body_def)
  have wf2: "wf_json (JDict [(''type'', JStr ''null''), (''enum'', JList [JStr ''a''])])" by simp
  have m2: "\<not> meets_type (JDict [(''type'', JStr ''null''), (''enum'', JList [JStr ''a''])])" by simp
  from allow_null_optional_fields_name_error[OF wf1, of None None None]
    allow_null_optional_fields_name_error[OF wf2, of None None None] wf1 m1 wf2 m2
  show ?thesis by (simp del: allow_null_optional_fields.simps wf_json.simps meets_type.simps)
qed

text \<open>
  C3 as stated fails where the entry is not on the walk: the first tree has the entry
  \<^verbatim>\<open>type: string\<close> below a list inside a list, the second is a list at the root; the
  pass returns both unchanged.
\<close>

theorem allow_null_optional_fields_counterexample:
  "contains_type_entry (JDict [(''default'', JList [JList [JDict [(''type'', JStr ''string'')]]])]) \<and>
   allow_null_optional_fields (JDict [(''default'', JList [JList [JDict [(''type'', JStr ''string'')]]])])
     None None None =
     Inr (JDict [(''default'', JList [JList [JDict [(''type'', JStr ''string'')]]])]) \<and>
   contains_type_entry (JList [JDict [(''type'', JStr ''string'')]]) \<and>
   allow_null_optional_fields (JList [JDict [(''type'', JStr ''string'')]]) None None None =
     Inr (JList [JDict [(''type'', JStr ''string'')]])"
  by simp

subsection \<open>C4: extraction\<close>

text \<open>
  C4, as amended. Take a document that is a dict with \<^verbatim>\<open>kind: CustomResourceDefinition\<close>.
  When both shape tests are false, the list of records stays as it was and no error
  is raised: so it is when \<^verbatim>\<open>spec\<close> is absent, and when \<^verbatim>\<open>spec\<close> is a dict without
  \<^verbatim>\<open>versions\<close> whose \<^verbatim>\<open>validation\<close> is absent or a dict without \<^verbatim>\<open>openAPIV3Schema\<close>. In
  the modern shape a version entry that is a dict whose \<^verbatim>\<open>schema\<close> is absent or a dict
  without \<^verbatim>\<open>openAPIV3Schema\<close> is passed over in the same way. In the legacy shape
  (\<^verbatim>\<open>validation\<close> a dict with \<^verbatim>\<open>openAPIV3Schema\<close>), and for a version entry that is a
  dict whose \<^verbatim>\<open>schema\<close> is a dict with \<^verbatim>\<open>openAPIV3Schema\<close>, the record is built by plain
  item access, in the order \<^verbatim>\<open>spec.names\<close>, \<^verbatim>\<open>spec.names.kind\<close>, \<^verbatim>\<open>spec.group\<close>, then
  \<^verbatim>\<open>spec.version\<close> (legacy) or the \<^verbatim>\<open>name\<close> of the entry (modern): the first access that
  fails raises, KeyError for a key that is not there and TypeError for a \<^verbatim>\<open>spec.names\<close>
  that is no dict, and nothing catches it; with all of them there, one record is
  appended. A \<^verbatim>\<open>spec\<close>, a \<^verbatim>\<open>validation\<close> of a dict \<^verbatim>\<open>spec\<close>, a version entry, or a
  \<^verbatim>\<open>schema\<close> of a dict entry that is null, a number or a boolean makes the shape test
  itself raise TypeError; so does such a \<^verbatim>\<open>versions\<close>, in a document without the legacy
  shape, when the loop over it starts.
\<close>

theorem extract_document_shapes:
  assumes "map_of d ''kind'' = Some (JStr ''CustomResourceDefinition'')"
  shows "(map_of d ''spec'' = None \<longrightarrow> extract_document (JDict d) schemas = Inr schemas) \<and>
    (map_of d ''spec'' = Some (JDict s) \<and>
     (map_of s ''validation'' = None \<or>
      (\<exists>v. map_of s ''validation'' = Some (JDict v) \<and> map_of v ''openAPIV3Schema'' = None)) \<longrightarrow>
       (map_of s ''versions'' = None \<longrightarrow> extract_document (JDict d) schemas = Inr schemas) \<and>
       (map_of s ''versions'' = Some (JList vs) \<longrightarrow>
          extract_document (JDict d) schemas = versions_loop (JDict d) vs schemas)) \<and>
    (map_of d ''spec'' = Some (JDict s) \<and> map_of s ''validation'' = Some (JDict v) \<and>
     map_of v ''openAPIV3Schema'' = Some body \<longrightarrow>
       extract_document (JDict d) schemas =
         (case map_of s ''names'' of
            None \<Rightarrow> Inl KeyError
          | Some names \<Rightarrow>
             (case py_getitem names ''kind'' of
                Inl e \<Rightarrow> Inl e
              | Inr k \<Rightarrow>
                 (case map_of s ''group'' of
                    None \<Rightarrow> Inl KeyError
                  | Some g \<Rightarrow>
                     (case map_of s ''version'' of
                        None \<Rightarrow> Inl KeyError
                      | Some ver \<Rightarrow>
                          Inr (schemas @
                            [\<lparr>kind = k, group = g, version = ver, definition' = body\<rparr>])))))) \<and>
    (map_of ver ''schema'' = None \<or>
     (\<exists>sc. map_of ver ''schema'' = Some (JDict sc) \<and> map_of sc ''openAPIV3Schema'' = None) \<longrightarrow>
       versions_loop (JDict d) (JDict ver # rest) schemas = versions_loop (JDict d) rest schemas) \<and>
    (map_of d ''spec'' = Some (JDict s) \<and> map_of ver ''schema'' = Some (JDict sc) \<and>
     map_of sc ''openAPIV3Schema'' = Some body \<longrightarrow>
       versions_loop (JDict d) (JDict ver # rest) schemas =
         (case map_of s ''names'' of
            None \<Rightarrow> Inl KeyError
          | Some names \<Rightarrow>
             (case py_getitem names ''kind'' of
                Inl e \<Rightarrow> Inl e
              | Inr k \<Rightarrow>
                 (case map_of s ''group'' of
                    None \<Rightarrow> Inl KeyError
                  | Some g \<Rightarrow>
                     (case map_of ver ''name'' of
                        None \<Rightarrow> Inl KeyError
                      | Some n \<Rightarrow>
                          versions_loop (JDict d) rest
                            (schemas @
                              [\<lparr>kind = k, group = g, version = n, definition' = body\<rparr>])))))) \<and>
    (is_legacy (JDict d) = Inr False \<and> spec_has (JDict d) ''versions'' = Inr False \<longrightarrow>
       extract_document (JDict d) schemas = Inr schemas) \<and>
    (map_of d ''spec'' = Some sp \<and> not_iterable sp \<longrightarrow>
       extract_document (JDict d) schemas = Inl TypeError) \<and>
    (map_of d ''spec'' = Some (JDict s) \<and> map_of s ''validation'' = Some val \<and> not_iterable val \<longrightarrow>
       extract_document (JDict d) schemas = Inl TypeError) \<and>
    (map_of d ''spec'' = Some (JDict s) \<and>
     (map_of s ''validation'' = None \<or>
      (\<exists>v. map_of s ''validation'' = Some (JDict v) \<and> map_of v ''openAPIV3Schema'' = None)) \<and>
     map_of s ''versions'' = Some vers \<and> not_iterable vers \<longrightarrow>
       extract_document (JDict d) schemas = Inl TypeError) \<and>
    (not_iterable entry \<longrightarrow>
       versions_loop (JDict d) (entry # rest) schemas = Inl TypeError) \<and>
    (map_of ver ''schema'' = Some sch \<and> not_iterable sch \<longrightarrow>
       versions_loop (JDict d) (JDict ver # rest) schemas = Inl TypeError)"
proof (intro conjI impI)
  assume "map_of d ''spec'' = None"
  with assms show "extract_document (JDict d) schemas = Inr schemas"
    by (rule extract_no_spec)
next
  assume a: "map_of d ''spec'' = Some (JDict s) \<and>
     (map_of s ''validation'' = None \<or>
      (\<exists>v. map_of s ''validation'' = Some (JDict v) \<and> map_of v ''openAPIV3Schema'' = None))"
  {
    assume "map_of s ''versions'' = None"
    with assms a show "extract_document (JDict d) schemas = Inr schemas"
      by (intro extract_neither) auto
  next
    assume "map_of s ''versions'' = Some (JList vs)"
    with assms a show "extract_document (JDict d) schemas = versions_loop (JDict d) vs schemas"
      by (intro extract_modern) auto
  }
next
  assume "map_of d ''spec'' = Some (JDict s) \<and> map_of s ''validation'' = Some (JDict v) \<and>
     map_of v ''openAPIV3Schema'' = Some body"
  with assms extract_legacy[of d s v body schemas]
  show "extract_document (JDict d) schemas =
         (case map_of s ''names'' of
            None \<Rightarrow> Inl KeyError
          | Some names \<Rightarrow>
             (case py_getitem names ''kind'' of
                Inl e \<Rightarrow> Inl e
              | Inr k \<Rightarrow>
                 (case map_of s ''group'' of
                    None \<Rightarrow> Inl KeyError
                  | Some g \<Rightarrow>
                     (case map_of s ''version'' of
                        None \<Rightarrow> Inl KeyError
                      | Some ver \<Rightarrow>
                          Inr (schemas @
                            [\<lparr>kind = k, group = g, version = ver, definition' = body\<rparr>])))))"
    by blast
next
  assume "map_of ver ''schema'' = None \<or>
     (\<exists>sc. map_of ver ''schema'' = Some (JDict sc) \<and> map_of sc ''openAPIV3Schema'' = None)"
  then show "versions_loop (JDict d) (JDict ver # rest) schemas = versions_loop (JDict d) rest schemas"
    by (rule versions_loop_skip)
next
  assume "map_of d ''spec'' = Some (JDict s) \<and> map_of ver ''schema'' = Some (JDict sc) \<and>
     map_of sc ''openAPIV3Schema'' = Some body"
  with versions_loop_entry[of d s ver sc body rest schemas]
  show "versions_loop (JDict d) (JDict ver # rest) schemas =
         (case map_of s ''names'' of
            None \<Rightarrow> Inl KeyError
          | Some names \<Rightarrow>
             (case py_getitem names ''kind'' of
                Inl e \<Rightarrow> Inl e
              | Inr k \<Rightarrow>
                 (case map_of s ''group'' of
                    None \<Rightarrow> Inl KeyError
                  | Some g \<Rightarrow>
                     (case map_of ver ''name'' of
                        None \<Rightarrow> Inl KeyError
                      | Some n \<Rightarrow>
                          versions_loop (JDict d) rest
                            (schemas @
                              [\<lparr>kind = k, group = g, version = n, definition' = body\<rparr>])))))"
    by blast
next
  assume "is_legacy (JDict d) = Inr False \<and> spec_has (JDict d) ''versions'' = Inr False"
  with assms show "extract_document (JDict d) schemas = Inr schemas"
    by (intro extract_neither_general) auto
next
  assume "map_of d ''spec'' = Some sp \<and> not_iterable sp"
  with assms show "extract_document (JDict d) schemas = Inl TypeError"
    by (intro extract_spec_not_iterable[where sp = sp]) auto
next
  assume "map_of d ''spec'' = Some (JDict s) \<and> map_of s ''validation'' = Some val \<and> not_iterable val"
  with assms show "extract_document (JDict d) schemas = Inl TypeError"
    by (intro extract_validation_not_iterable[where s = s and val = val]) auto
next
  assume "map_of d ''spec'' = Some (JDict s) \<and>
     (map_of s ''validation'' = None \<or>
      (\<exists>v. map_of s ''validation'' = Some (JDict v) \<and> map_of v ''openAPIV3Schema'' = None)) \<and>
     map_of s ''versions'' = Some vers \<and> not_iterable vers"
  with assms show "extract_document (JDict d) schemas = Inl TypeError"
    by (intro extract_versions_not_iterable[where s = s and vs = vers]) auto
next
  assume "not_iterable entry"
  then show "versions_loop (JDict d) (entry # rest) schemas = Inl TypeError"
    by (rule versions_loop_entry_not_iterable)
next
  assume "map_of ver ''schema'' = Some sch \<and> not_iterable sch"
  then show "versions_loop (JDict d) (JDict ver # rest) schemas = Inl TypeError"
    by (intro versions_loop_schema_not_iterable[where sc = sch]) auto
qed

theorem extract_document_shapes_witness:
  "map_of [(''kind'', JStr ''CustomResourceDefinition'')] ''kind'' =
     Some (JStr ''CustomResourceDefinition'') \<and>
   extract_document (JDict [(''kind'', JStr ''CustomResourceDefinition'')]) [] = Inr [] \<and>
   extract_document
     (JDict [(''kind'', JStr ''CustomResourceDefinition''),
             (''spec'', JDict [(''group'', JStr ''example.com''),
                              (''names'', JDict [(''kind'', JStr ''Foo'')]),
                              (''version'', JStr ''v1''),
                              (''validation'', JDict [(''openAPIV3Schema'', JDict [])])])]) [] =
     Inr [\<lparr>kind = JStr ''Foo'', group = JStr ''example.com'', version = JStr ''v1'',
           definition' = JDict []\<rparr>] \<and>
   extract_document
     (JDict [(''kind'', JStr ''CustomResourceDefinition''),
             (''spec'', JDict [(''group'', JStr ''example.com''),
                              (''names'', JDict [(''kind'', JStr ''Foo'')]),
                              (''versions'', JList [])])]) [] = Inr [] \<and>
   extract_document
     (JDict [(''kind'', JStr ''CustomResourceDefinition''),
             (''spec'', JDict [(''group'', JStr ''example.com''),
                              (''names'', JDict [(''kind'', JStr ''Foo'')]),
                              (''versions'', JList [JDict [(''name'', JStr ''v0'')],
                                 JDict [(''name'', JStr ''v1''),
                                        (''schema'', JDict [(''openAPIV3Schema'', JDict [])])]])])]) [] =
     Inr [\<lparr>kind = JStr ''Foo'', group = JStr ''example.com'', version = JStr ''v1'',
           definition' = JDict []\<rparr>] \<and>
   extract_document
     (JDict [(''kind'', JStr ''CustomResourceDefinition''), (''spec'', JNull)]) [] = Inl TypeError \<and>
   extract_document
     (JDict [(''kind'', JStr ''CustomResourceDefinition''),
             (''spec'', JDict [(''group'', JStr ''example.com''),
                              (''names'', JNull),
                              (''version'', JStr ''v1''),
                              (''validation'', JDict [(''openAPIV3Schema'', JDict [])])])]) [] =
     Inl TypeError"
proof -
  let ?v0 = "[(''name'', JStr ''v0'')]"
  let ?v1 = "[(''name'', JStr ''v1''), (''schema'', JDict [(''openAPIV3Schema'', JDict [])])]"
  let ?two = "[(''group'', JStr ''example.com''), (''names'', JDict [(''kind'', JStr ''Foo'')]),
      (''versions'', JList [JDict ?v0, JDict ?v1])]"
  let ?crd = "(''kind'', JStr ''CustomResourceDefinition'')"
  let ?legacy = "[(''group'', JStr ''example.com''), (''names'', JDict [(''kind'', JStr ''Foo'')]),
      (''version'', JStr ''v1''), (''validation'', JDict [(''openAPIV3Schema'', JDict [])])]"
  let ?modern = "[(''group'', JStr ''example.com''), (''names'', JDict [(''kind'', JStr ''Foo'')]),
      (''versions'', JList [])]"
  have k1: "map_of [?crd] ''kind'' = Some (JStr ''CustomResourceDefinition'')" by simp
  have k2: "map_of [?crd, (''spec'', JDict ?legacy)] ''kind'' = Some (JStr ''CustomResourceDefinition'')"
    by simp
  have k3: "map_of [?crd, (''spec'', JDict ?modern)] ''kind'' = Some (JStr ''CustomResourceDefinition'')"
    by simp
  have none: "extract_document (JDict [?crd]) [] = Inr []"
    using extract_document_shapes[OF k1, where schemas = "[]", THEN conjunct1] by simp
  have legacy: "extract_document (JDict [?crd, (''spec'', JDict ?legacy)]) [] =
      Inr [\<lparr>kind = JStr ''Foo'', group = JStr ''example.com'', version = JStr ''v1'',
            definition' = JDict []\<rparr>]"
    using extract_document_shapes[OF k2, where s = ?legacy and schemas = "[]"
        and v = "[(''openAPIV3Schema'', JDict [])]" and body = "JDict []",
        THEN conjunct2, THEN conjunct2, THEN conjunct1]
    by simp
  have modern: "extract_document (JDict [?crd, (''spec'', JDict ?modern)]) [] = Inr []"
    using extract_document_shapes[OF k3, where s = ?modern and schemas = "[]" and vs = "[]",
        THEN conjunct2, THEN conjunct1]
    by simp
  have k4: "map_of [?crd, (''spec'', JDict ?two)] ''kind'' = Some (JStr ''CustomResourceDefinition'')"
    by simp
  have loop: "extract_document (JDict [?crd, (''spec'', JDict ?two)]) [] =
      versions_loop (JDict [?crd, (''spec'', JDict ?two)]) [JDict ?v0, JDict ?v1] []"
    using extract_document_shapes[OF k4, where s = ?two and schemas = "[]"
        and vs = "[JDict ?v0, JDict ?v1]", THEN conjunct2, THEN conjunct1]
    by simp
  have skip: "versions_loop (JDict [?crd, (''spec'', JDict ?two)]) [JDict ?v0, JDict ?v1] [] =
      versions_loop (JDict [?crd, (''spec'', JDict ?two)]) [JDict ?v1] []"
    using extract_document_shapes[OF k4, where ver = ?v0 and rest = "[JDict ?v1]" and schemas = "[]",
        THEN conjunct2, THEN conjunct2, THEN conjunct2, THEN conjunct1]
    by simp
  have entry: "versions_loop (JDict [?crd, (''spec'', JDict ?two)]) [JDict ?v1] [] =
      Inr [\<lparr>kind = JStr ''Foo'', group = JStr ''example.com'', version = JStr ''v1'',
            definition' = JDict []\<rparr>]"
    using extract_document_shapes[OF k4, where s = ?two and ver = ?v1 and rest = "[]"
        and schemas = "[]" and sc = "[(''openAPIV3Schema'', JDict [])]" and body = "JDict []",
        THEN conjunct2, THEN conjunct2, THEN conjunct2, THEN conjunct2, THEN conjunct1]
    by simp
  have k5: "map_of [?crd, (''spec'', JNull)] ''kind'' = Some (JStr ''CustomResourceDefinition'')"
    by simp
  have null_spec: "extract_document (JDict [?crd, (''spec'', JNull)]) [] = Inl TypeError"
    using extract_document_shapes[OF k5, where sp = JNull and schemas = "[]",
        THEN conjunct2, THEN conjunct2, THEN conjunct2, THEN conjunct2, THEN conjunct2,
        THEN conjunct2, THEN conjunct1]
    by (simp add: not_iterable_def)
  let ?nonames = "[(''group'', JStr ''example.com''), (''names'', JNull),
      (''version'', JStr ''v1''), (''validation'', JDict [(''openAPIV3Schema'', JDict [])])]"
  have k6: "map_of [?crd, (''spec'', JDict ?nonames)] ''kind'' = Some (JStr ''CustomResourceDefinition'')"
    by simp
  have null_names: "extract_document (JDict [?crd, (''spec'', JDict ?nonames)]) [] = Inl TypeError"
    using extract_document_shapes[OF k6, where s = ?nonames and schemas = "[]"
        and v = "[(''openAPIV3Schema'', JDict [])]" and body = "JDict []",
        THEN conjunct2, THEN conjunct2, THEN conjunct1]
    by (simp add: py_getitem_def)
  from k1 none legacy modern loop skip entry null_spec null_names show ?thesis by simp
qed

text \<open>
  C4 as stated fails where a shape matches and a key of the record is missing: the
  first document has the legacy shape without \<^verbatim>\<open>spec.names\<close>, the second a version
  entry without \<^verbatim>\<open>name\<close>; both raise KeyError. It fails also for the third document,
  which matches neither shape: its \<^verbatim>\<open>spec\<close> is null, and the shape test raises TypeError.
\<close>

theorem extract_document_counterexample:
  "extract_document
     (JDict [(''kind'', JStr ''CustomResourceDefinition''),
             (''spec'', JDict [(''group'', JStr ''example.com''), (''version'', JStr ''v1''),
                              (''validation'', JDict [(''openAPIV3Schema'', JDict [])])])]) [] =
     Inl KeyError \<and>
   extract_document
     (JDict [(''kind'', JStr ''CustomResourceDefinition''),
             (''spec'', JDict [(''group'', JStr ''example.com''),
                              (''names'', JDict [(''kind'', JStr ''Foo'')]),
                              (''versions'', JList [JDict [(''schema'',
                                 JDict [(''openAPIV3Schema'', JDict [])])]])])]) [] =
     Inl KeyError \<and>
   extract_document
     (JDict [(''kind'', JStr ''CustomResourceDefinition''), (''spec'', JNull)]) [] = Inl TypeError"
  by code_simp

subsection \<open>C5: the exit code\<close>

text \<open>
  C5. The test \<^verbatim>\<open>len(sys.argv) == 0\<close> is true only for an empty \<^verbatim>\<open>sys.argv\<close>. A run
  without input arguments has the script's name in \<^verbatim>\<open>sys.argv\<close>: it prints nothing,
  writes the two files with nothing in them and exits with 0.
\<close>

theorem main_zero_arguments:
  "main [script] w =
     ([Open_w ''_definitions.json'', Write ''_definitions.json'' (JDict [(''definitions'', JDict [])]),
       Open_w ''all.json'', Write ''all.json'' (JDict [(''oneOf'', JList [])])], Exit 0) \<and>
   main [] w = ([Print ''missing file''], Exit 1)"
  by (simp add: main_def)

subsection \<open>C6: idempotence\<close>

text \<open>
  C6. On a tree whose dicts hold no key twice, each of the two passes of the write
  path gives, applied to its own result, that result again; so does the close-by-default
  pass applied once more to its argument, which the first call has changed in place.
\<close>

theorem passes_idempotent:
  assumes "wf_json t"
  shows "snd (additional_properties (snd (additional_properties t))) = snd (additional_properties t) \<and>
    snd (additional_properties (fst (additional_properties t))) = snd (additional_properties t) \<and>
    replace_int_or_string (replace_int_or_string t) = replace_int_or_string t"
proof -
  have left: "fst (additional_properties t) = snd (additional_properties t)"
    using ap_induct_facts(1)[of t] assms by simp
  have again: "snd (additional_properties (snd (additional_properties t))) = snd (additional_properties t)"
    by (rule additional_properties_idem[OF assms])
  have "replace_int_or_string (replace_int_or_string t) = replace_int_or_string t"
    using ris_idem_both[OF assms] by simp
  with left again show ?thesis by simp
qed

theorem passes_idempotent_witness:
  "wf_json example_schema_body \<and>
   snd (additional_properties (snd (additional_properties example_schema_body))) =
     snd (additional_properties example_schema_body) \<and>
   replace_int_or_string (replace_int_or_string example_schema_body) =
     replace_int_or_string example_schema_body \<and>
   snd (additional_properties example_schema_body) \<noteq> example_schema_body \<and>
   replace_int_or_string example_schema_body \<noteq> example_schema_body"
proof -
  have wf: "wf_json example_schema_body" by (simp add: example_schema_body_def)
  have "snd (additional_properties example_schema_body) \<noteq> example_schema_body"
    by (simp add: example_schema_body_def close_node_def)
  moreover have "replace_int_or_string example_schema_body \<noteq> example_schema_body"
    by (simp add: example_schema_body_def ONE_OF_def)
  ultimately show ?thesis using passes_idempotent[OF wf] wf by simp
qed

subsection \<open>C7: the name of the written file\<close>



subsection \<open>C8: the definitions file\<close>



subsection \<open>C9: appending without duplicates\<close>

text \<open>
  C9. Let \<open>obj\<close> be a dict in which \<open>key\<close> is absent (then \<open>xs\<close> is the empty list that
  the function creates first) or holds the list \<open>xs\<close>. The call leaves \<open>obj[key]\<close> as
  \<open>xs\<close> when \<open>xs\<close> has an element equal to the value and as \<open>xs\<close> followed by the value
  otherwise, so what was in the list stays, in its order. A second call with the same
  value changes nothing. When \<open>xs\<close> held the value at most once, the list holds it
  exactly once after the calls. Two calls with values that are not equal, neither of them
  in \<open>xs\<close>, leave \<open>xs\<close> followed by the first and then the second value.
\<close>

theorem append_no_duplicates_spec:
  assumes "(map_of d key = None \<and> xs = []) \<or> map_of d key = Some (JList xs)"
    and "wf_json val"
  shows "append_no_duplicates (JDict d) key val =
      Inr (JDict (AList.update key
        (JList (if list_ex (\<lambda>x. py_eq x val) xs then xs else xs @ [val])) d)) \<and>
    then_do (append_no_duplicates (JDict d) key val) (\<lambda>obj. append_no_duplicates obj key val) =
      append_no_duplicates (JDict d) key val \<and>
    (length (filter (\<lambda>x. py_eq x val) xs) \<le> 1 \<longrightarrow>
       length (filter (\<lambda>x. py_eq x val)
         (if list_ex (\<lambda>x. py_eq x val) xs then xs else xs @ [val])) = 1) \<and>
    (\<not> list_ex (\<lambda>x. py_eq x val) xs \<and> \<not> list_ex (\<lambda>x. py_eq x val2) xs \<and> \<not> py_eq val val2 \<longrightarrow>
       then_do (append_no_duplicates (JDict d) key val) (\<lambda>obj. append_no_duplicates obj key val2) =
         Inr (JDict (AList.update key (JList (xs @ [val, val2])) d)))"
proof -
  let ?ys = "if list_ex (\<lambda>x. py_eq x val) xs then xs else xs @ [val]"
  have refl: "py_eq val val" by (rule py_eq_refl[OF assms(2)])
  have first: "append_no_duplicates (JDict d) key val = Inr (JDict (AList.update key (JList ?ys) d))"
    by (rule append_no_duplicates_result[OF assms(1)])
  have held: "(map_of (AList.update key (JList ?ys) d) key = None \<and> ?ys = []) \<or>
      map_of (AList.update key (JList ?ys) d) key = Some (JList ?ys)"
    by (simp add: update_conv')
  have again: "append_no_duplicates (JDict (AList.update key (JList ?ys) d)) key w =
      Inr (JDict (AList.update key (JList (if list_ex (\<lambda>x. py_eq x w) ?ys then ?ys else ?ys @ [w])) d))" for w
    using append_no_duplicates_result[OF held, of w] by simp
  have member: "list_ex (\<lambda>x. py_eq x val) ?ys" using refl by simp
  have twice: "then_do (append_no_duplicates (JDict d) key val) (\<lambda>obj. append_no_duplicates obj key val) =
      append_no_duplicates (JDict d) key val"
    using first again[of val] member by simp
  have once: "length (filter (\<lambda>x. py_eq x val) ?ys) = 1"
    if le: "length (filter (\<lambda>x. py_eq x val) xs) \<le> 1"
  proof (cases "list_ex (\<lambda>x. py_eq x val) xs")
    case True
    then have "filter (\<lambda>x. py_eq x val) xs \<noteq> []"
      by (auto simp: list_ex_iff filter_empty_conv)
    then have "0 < length (filter (\<lambda>x. py_eq x val) xs)" by simp
    with le have "length (filter (\<lambda>x. py_eq x val) xs) = 1" by arith
    with True show ?thesis by simp
  next
    case False
    then have "filter (\<lambda>x. py_eq x val) xs = []" by (auto simp: list_ex_iff filter_empty_conv)
    then show ?thesis using refl False by simp
  qed
  have both: "then_do (append_no_duplicates (JDict d) key val) (\<lambda>obj. append_no_duplicates obj key val2) =
      Inr (JDict (AList.update key (JList (xs @ [val, val2])) d))"
    if "\<not> list_ex (\<lambda>x. py_eq x val) xs" "\<not> list_ex (\<lambda>x. py_eq x val2) xs" "\<not> py_eq val val2"
    using first again[of val2] that by simp
  from first twice once both show ?thesis by blast
qed

theorem append_no_duplicates_spec_witness:
  "map_of [(''type'', JStr ''string'')] ''enum'' = None \<and> wf_json (JStr ''g/v1'') \<and>
   append_no_duplicates (JDict [(''type'', JStr ''string'')]) ''enum'' (JStr ''g/v1'') =
     Inr (JDict [(''type'', JStr ''string''), (''enum'', JList [JStr ''g/v1''])]) \<and>
   then_do (append_no_duplicates (JDict [(''type'', JStr ''string'')]) ''enum'' (JStr ''g/v1''))
     (\<lambda>obj. append_no_duplicates obj ''enum'' (JStr ''g/v1'')) =
     Inr (JDict [(''type'', JStr ''string''), (''enum'', JList [JStr ''g/v1''])]) \<and>
   then_do (append_no_duplicates (JDict [(''type'', JStr ''string'')]) ''enum'' (JStr ''g/v1''))
     (\<lambda>obj. append_no_duplicates obj ''enum'' (JStr ''g/v2'')) =
     Inr (JDict [(''type'', JStr ''string''), (''enum'', JList [JStr ''g/v1'', JStr ''g/v2''])]) \<and>
   length (filter (\<lambda>x. py_eq x (JStr ''g/v1'')) [JStr ''g/v1'']) = 1"
proof -
  have absent: "(map_of [(''type'', JStr ''string'')] ''enum'' = None \<and> ([] :: json list) = []) \<or>
      map_of [(''type'', JStr ''string'')] ''enum'' = Some (JList [])" by simp
  have wf: "wf_json (JStr ''g/v1'')" by simp
  note inst = append_no_duplicates_spec[OF absent wf, of "JStr ''g/v2''"]
  have once: "append_no_duplicates (JDict [(''type'', JStr ''string'')]) ''enum'' (JStr ''g/v1'') =
      Inr (JDict [(''type'', JStr ''string''), (''enum'', JList [JStr ''g/v1''])])"
    using inst[THEN conjunct1] by simp
  have twice: "then_do (append_no_duplicates (JDict [(''type'', JStr ''string'')]) ''enum'' (JStr ''g/v1''))
      (\<lambda>obj. append_no_duplicates obj ''enum'' (JStr ''g/v1'')) =
      append_no_duplicates (JDict [(''type'', JStr ''string'')]) ''enum'' (JStr ''g/v1'')"
    by (rule inst[THEN conjunct2, THEN conjunct1])
  have both: "then_do (append_no_duplicates (JDict [(''type'', JStr ''string'')]) ''enum'' (JStr ''g/v1''))
      (\<lambda>obj. append_no_duplicates obj ''enum'' (JStr ''g/v2'')) =
      Inr (JDict [(''type'', JStr ''string''), (''enum'', JList [JStr ''g/v1'', JStr ''g/v2''])])"
    using inst[THEN conjunct2, THEN conjunct2, THEN conjunct2] by simp
  have count: "length (filter (\<lambda>x. py_eq x (JStr ''g/v1'')) [JStr ''g/v1'']) = 1"
    using inst[THEN conjunct2, THEN conjunct2, THEN conjunct1] by simp
  show ?thesis
  proof (intro conjI)
    show "then_do (append_no_duplicates (JDict [(''type'', JStr ''string'')]) ''enum'' (JStr ''g/v1''))
      (\<lambda>obj. append_no_duplicates obj ''enum'' (JStr ''g/v1'')) =
      Inr (JDict [(''type'', JStr ''string''), (''enum'', JList [JStr ''g/v1''])])"
      unfolding twice by (rule once)
  qed (rule once both count | simp)+
qed

subsection \<open>C10: definitions without the enum targets\<close>




end
